theory Spec2Isabelle
  imports Main "HOL-Library.Word"
begin

unbundle bit_operations_syntax

section \<open>The iChip 2128 protocol engine (ichip_2128.cpp)\<close>

text \<open>
  Strings (Arduino \<open>String\<close>, C strings) are byte lists. The header \<open>ichip_2128.h\<close> is not
  among the sources: the communication states are the four that the source file names, and
  the ring-buffer pointers, which \<open>setup()\<close> sets to 0 and \<open>sendCmd\<close> only ever masks with
  63, are natural numbers.
\<close>

datatype ICHIP_COMM_STATE = IDLE | GET_PARAM | SET_PARAM | SEND_SOCKET

text \<open>One slot of \<open>sendingBuffer\<close>; the field \<open>state\<close> of the slot is \<open>cmd_state\<close> here.\<close>

record SendBuff =
  cmd :: string
  cmd_state :: ICHIP_COMM_STATE

text \<open>
  The object, together with the serial interface it owns: \<open>serial_tx\<close> is every byte written
  to \<open>serialInterface\<close> so far, \<open>serial_rx\<close> the bytes received from the adapter and not yet
  read, \<open>debug_log\<close> the format strings handed to \<open>Logger::debug\<close>.
\<close>

record ICHIPWIFI =
  state :: ICHIP_COMM_STATE
  sendingBuffer :: "SendBuff list"
  psWritePtr :: nat
  psReadPtr :: nat
  ibWritePtr :: nat
  tickCounter :: nat
  listeningSocket :: int
  activeSockets :: "int list"
  lastSentTime :: nat
  lastSentCmd :: string
  lastSentState :: ICHIP_COMM_STATE
  didParamLoad :: bool
  didTCPListener :: bool
  serial_tx :: string
  serial_rx :: string
  debug_log :: "string list"

text \<open>
  What the engine reads from outside the file: \<open>Constants::ichipCommandPrefix\<close> (the comment
  of \<open>sendCmd\<close> calls it the "AT+i" part) and \<open>Logger::isDebug()\<close>. The value of \<open>millis()\<close>
  is an argument of each call.
\<close>

record platform =
  ichipCommandPrefix :: string
  isDebug :: bool

text \<open>\<open>ICHIPWIFI::setup\<close>, the assignments to the object (pins, ticks and baud rate left out).\<close>

definition ICHIPWIFI_setup :: "nat \<Rightarrow> ICHIPWIFI \<Rightarrow> ICHIPWIFI" where
  "ICHIPWIFI_setup millis s =
     s\<lparr>tickCounter := 0, ibWritePtr := 0, psWritePtr := 0, psReadPtr := 0,
       listeningSocket := 0, lastSentTime := millis, lastSentState := IDLE,
       lastSentCmd := [], activeSockets := [-1, -1, -1, -1], state := IDLE,
       didParamLoad := False, didTCPListener := False\<rparr>"

text \<open>\<open>ICHIPWIFI::sendCmd(String cmd, ICHIP_COMM_STATE cmdstate)\<close>.\<close>

definition sendCmd ::
  "platform \<Rightarrow> nat \<Rightarrow> string \<Rightarrow> ICHIP_COMM_STATE \<Rightarrow> ICHIPWIFI \<Rightarrow> ICHIPWIFI" where
  "sendCmd p millis c cmdstate s =
     (if state s \<noteq> IDLE then
        s\<lparr>sendingBuffer :=
            (sendingBuffer s)[psWritePtr s := \<lparr>cmd = c, cmd_state = cmdstate\<rparr>],
          psWritePtr := (psWritePtr s + 1) AND 63,
          debug_log :=
            (if isDebug p then debug_log s @ [''Buffer cmd: '' @ c] else debug_log s)\<rparr>
      else
        s\<lparr>serial_tx := serial_tx s @ ichipCommandPrefix p @ c @ [CHR 0x0D],
          state := cmdstate,
          lastSentTime := millis,
          lastSentCmd := c,
          lastSentState := cmdstate,
          debug_log :=
            (if isDebug p then debug_log s @ [''Send to ichip cmd: '' @ c]
             else debug_log s)\<rparr>)"

text \<open>\<open>ICHIPWIFI::sendCmd(String cmd)\<close>: the state defaults to \<open>SET_PARAM\<close>.\<close>

definition sendCmd1 :: "platform \<Rightarrow> nat \<Rightarrow> string \<Rightarrow> ICHIPWIFI \<Rightarrow> ICHIPWIFI" where
  "sendCmd1 p millis c s = sendCmd p millis c SET_PARAM s"

text \<open>A run of calls of \<open>sendCmd\<close>, each with its reading of \<open>millis()\<close>.\<close>

fun sendCmds ::
  "platform \<Rightarrow> (nat \<times> string \<times> ICHIP_COMM_STATE) list \<Rightarrow> ICHIPWIFI \<Rightarrow> ICHIPWIFI" where
  "sendCmds p [] s = s"
| "sendCmds p ((t, c, st) # cs) s = sendCmds p cs (sendCmd p t c st s)"

text \<open>
  \<open>sprintf\<close> with the conversions \<open>%i\<close> and \<open>%03i\<close> of an \<open>int\<close>: decimal digits, a minus
  sign for a negative value, and for \<open>%03i\<close> zeros after the sign up to three characters.
\<close>

fun dec :: "nat \<Rightarrow> string" where
  "dec n = (if n < 10 then [''0123456789'' ! n]
            else dec (n div 10) @ [''0123456789'' ! (n mod 10)])"

declare dec.simps [simp del]

definition sprintf_i :: "int \<Rightarrow> string" where
  "sprintf_i v = (if v < 0 then ''-'' @ dec (nat (- v)) else dec (nat v))"

definition sprintf_03i :: "int \<Rightarrow> string" where
  "sprintf_03i v =
     (if v < 0 then ''-'' @ replicate (2 - length (dec (nat (- v)))) (CHR ''0'') @ dec (nat (- v))
      else replicate (3 - length (dec (nat v))) (CHR ''0'') @ dec (nat v))"

text \<open>
  \<open>ICHIPWIFI::sendToSocket\<close>. Both \<open>sprintf\<close> calls write to \<open>char buff[6]\<close>, which holds
  five characters and the terminating zero; a longer text overruns the array.
\<close>

datatype error = BufferOverrun

definition sendToSocket ::
  "platform \<Rightarrow> nat \<Rightarrow> int \<Rightarrow> string \<Rightarrow> ICHIPWIFI \<Rightarrow> error + ICHIPWIFI" where
  "sendToSocket p millis socket data s =
     (let buff = sprintf_03i socket in
      if 5 < length buff then Inl BufferOverrun
      else
        let temp = ''SSND%%:'' @ buff;
            buff' = '','' @ sprintf_i (int (length data)) @ '':''
        in if 5 < length buff' then Inl BufferOverrun
           else Inr (sendCmd p millis (temp @ buff' @ data) SEND_SOCKET s))"

text \<open>
  \<open>ICHIPWIFI::handleTick\<close>, \<open>ICHIPWIFI::loop\<close>, \<open>ICHIPWIFI::processParameterChange\<close> and
  \<open>ICHIPWIFI::loadParameters\<close> have empty bodies: they read nothing and change nothing.
\<close>

definition handleTick :: "ICHIPWIFI \<Rightarrow> ICHIPWIFI" where
  "handleTick s = s"

definition loop :: "ICHIPWIFI \<Rightarrow> ICHIPWIFI" where
  "loop s = s"

definition processParameterChange :: "string \<Rightarrow> ICHIPWIFI \<Rightarrow> ICHIPWIFI" where
  "processParameterChange key s = s"

definition loadParameters :: "ICHIPWIFI \<Rightarrow> ICHIPWIFI" where
  "loadParameters s = s"

text \<open>\<open>getNextParam\<close>, \<open>getParamById\<close> and \<open>setParam(String, String)\<close>.\<close>

definition getNextParam :: "platform \<Rightarrow> nat \<Rightarrow> ICHIPWIFI \<Rightarrow> ICHIPWIFI" where
  "getNextParam p millis s = sendCmd p millis ''WNXT'' GET_PARAM s"

definition getParamById :: "platform \<Rightarrow> nat \<Rightarrow> string \<Rightarrow> ICHIPWIFI \<Rightarrow> ICHIPWIFI" where
  "getParamById p millis paramName s = sendCmd p millis (paramName @ ''?'') GET_PARAM s"

definition setParam :: "platform \<Rightarrow> nat \<Rightarrow> string \<Rightarrow> string \<Rightarrow> ICHIPWIFI \<Rightarrow> ICHIPWIFI" where
  "setParam p millis paramName v s =
     sendCmd p millis (paramName @ [CHR ''='', CHR 0x22] @ v @ [CHR 0x22]) SET_PARAM s"

text \<open>
  The engine between calls of \<open>sendCmd\<close>: the polling entry point \<open>loop\<close> runs any number of
  times, and the adapter may put bytes on the line.
\<close>

fun loops :: "nat \<Rightarrow> ICHIPWIFI \<Rightarrow> ICHIPWIFI" where
  "loops 0 s = s"
| "loops (Suc n) s = loops n (loop s)"

definition receive :: "string \<Rightarrow> ICHIPWIFI \<Rightarrow> ICHIPWIFI" where
  "receive bytes s = s\<lparr>serial_rx := serial_rx s @ bytes\<rparr>"

section \<open>The serial console (SerialConsole.cpp)\<close>

text \<open>
  Characters are bytes. \<open>SerialUSB.read()\<close> returns \<open>-1\<close> when nothing is there and a byte
  otherwise: an input is a \<open>char option\<close>, \<open>None\<close> for \<open>-1\<close>. The header \<open>SerialConsole.h\<close> is
  not among the sources: \<open>cmdBuffer\<close> is an array of 80 \<open>char\<close>, the write offset \<open>ptrBuffer\<close>,
  which never goes below 0, is a natural number, and \<open>STATE_ROOT_MENU\<close> is the only menu state
  the source file names.
\<close>

datatype CONSOLE_STATE = STATE_ROOT_MENU

datatype MessageType = MSG_STARTUP | MSG_SET_PARAM | MSG_CONFIG_CHANGE | MSG_COMMAND

datatype LogLevel = Debug | Info | Warn | Error | Off

text \<open>
  Everything the console does to the rest of the system, in the order it happens. A
  \<open>Logger\<close> call is its format string and its arguments; \<open>sendMessage\<close> is
  \<open>DeviceManager::sendMessage(DEVICE_WIFI, ICHIP2128, type, payload)\<close>, with \<open>None\<close> for a
  \<open>NULL\<close> payload; \<open>menu_printed\<close> is the text that \<open>printMenu()\<close> prints.
\<close>

datatype effect =
    Logger_console string "int list"
  | Logger_info string "string list"
  | Logger_setLoglevel LogLevel
  | sysPrefs_write_LOG_LEVEL "8 word"
  | sysPrefs_saveChecksum
  | sendMessage MessageType "string option"
  | setOutput int int
  | memCache_Write nat "8 word"
  | memCache_FlushAllPages
  | memCache_InvalidateAll
  | delay nat
  | menu_printed
  | updateWifi
  | global_setup

text \<open>
  The console object and what it reads from its surroundings: the digital outputs behind
  \<open>getOutput\<close> and \<open>setOutput\<close>, the bytes behind \<open>memCache\<close>, and the constants of headers that
  are not among the sources.
\<close>

record SerialConsole =
  cmdBuffer :: "char list"
  ptrBuffer :: nat
  menu_state :: CONSOLE_STATE
  handlingEvent :: bool
  loopcount :: nat
  cancel :: bool
  douts :: "int \<Rightarrow> int"
  memCache :: "nat \<Rightarrow> 8 word"
  EE_DEVICES_BASE :: nat
  EE_DEVICE_SIZE :: nat
  EE_SYSTEM_START :: nat
  NUM_OUTPUT :: nat
  ICHIP2128 :: int
  trace :: "effect list"

definition say :: "effect list \<Rightarrow> SerialConsole \<Rightarrow> SerialConsole" where
  "say es s = s\<lparr>trace := trace s @ es\<rparr>"

text \<open>
  Modelled from the spec: \<open>getOutput\<close> and \<open>setOutput\<close> are declared outside the sources; the
  spec has \<open>OUTPUT\<close> toggle a numbered digital output, so they read and write one cell per
  number.
\<close>

definition getOutput :: "int \<Rightarrow> SerialConsole \<Rightarrow> int" where
  "getOutput which s = douts s which"

definition setOutput_call :: "int \<Rightarrow> int \<Rightarrow> SerialConsole \<Rightarrow> SerialConsole" where
  "setOutput_call which v s = say [setOutput which v] (s\<lparr>douts := (douts s)(which := v)\<rparr>)"

definition memCache_Write_call :: "nat \<Rightarrow> 8 word \<Rightarrow> SerialConsole \<Rightarrow> SerialConsole" where
  "memCache_Write_call a v s = say [memCache_Write a v] (s\<lparr>memCache := (memCache s)(a := v)\<rparr>)"

text \<open>\<open>SerialConsole::init\<close>.\<close>

definition SerialConsole_init :: "SerialConsole \<Rightarrow> SerialConsole" where
  "SerialConsole_init s =
     s\<lparr>handlingEvent := False, ptrBuffer := 0, menu_state := STATE_ROOT_MENU,
       loopcount := 0, cancel := False\<rparr>"

text \<open>\<open>SerialConsole::printMenu\<close> only prints.\<close>

definition printMenu :: "SerialConsole \<Rightarrow> SerialConsole" where
  "printMenu s = say [menu_printed] s"

subsection \<open>Library functions the console calls\<close>

text \<open>A C string: the bytes up to the first zero.\<close>

definition cstr :: "char list \<Rightarrow> string" where
  "cstr bs = takeWhile (\<lambda>c. c \<noteq> CHR 0x00) bs"

text \<open>
  \<open>String(char c)\<close> copies the C string made of \<open>c\<close> and a zero, so a zero byte gives the empty
  string.
\<close>

definition String_of_char :: "char \<Rightarrow> string" where
  "String_of_char c = cstr [c]"

text \<open>\<open>toupper\<close> in the C locale, and \<open>String::toUpperCase\<close>.\<close>

definition toupper :: "char \<Rightarrow> char" where
  "toupper c =
     (if 97 \<le> (of_char c :: nat) \<and> (of_char c :: nat) \<le> 122
      then char_of ((of_char c :: nat) - 32) else c)"

definition toUpperCase :: "string \<Rightarrow> string" where
  "toUpperCase str = map toupper str"

text \<open>
  \<open>strtol(str, NULL, 0)\<close> of the C library with a 32-bit \<open>long\<close>: white space, an optional
  sign, base 16 after \<open>0x\<close> or \<open>0X\<close>, base 8 after \<open>0\<close>, base 10 otherwise, the digits of that
  base up to the first other byte, and the result clamped to the range of \<open>long\<close>.
\<close>

definition isspace :: "char \<Rightarrow> bool" where
  "isspace c = (c = CHR '' '' \<or> (9 \<le> (of_char c :: nat) \<and> (of_char c :: nat) \<le> 13))"

definition digit_val :: "char \<Rightarrow> nat" where
  "digit_val c =
     (let n = (of_char c :: nat)
      in if 48 \<le> n \<and> n \<le> 57 then n - 48
         else if 97 \<le> n \<and> n \<le> 122 then n - 87
         else if 65 \<le> n \<and> n \<le> 90 then n - 55
         else 36)"

definition digits_value :: "nat \<Rightarrow> string \<Rightarrow> nat" where
  "digits_value base str =
     foldl (\<lambda>acc c. acc * base + digit_val c) 0 (takeWhile (\<lambda>c. digit_val c < base) str)"

definition is_hex_prefix :: "string \<Rightarrow> bool" where
  "is_hex_prefix str =
     (case str of
        c0 # c1 # c2 # rest \<Rightarrow>
          c0 = CHR ''0'' \<and> (c1 = CHR ''x'' \<or> c1 = CHR ''X'') \<and> digit_val c2 < 16
      | _ \<Rightarrow> False)"

definition strtol :: "string \<Rightarrow> int" where
  "strtol str =
     (let s1 = dropWhile isspace str;
          neg = (case s1 of c # rest \<Rightarrow> c = CHR ''-'' | [] \<Rightarrow> False);
          s2 = (case s1 of
                  c # rest \<Rightarrow> if c = CHR ''-'' \<or> c = CHR ''+'' then rest else s1
                | [] \<Rightarrow> s1);
          v = (if is_hex_prefix s2 then int (digits_value 16 (drop 2 s2))
               else if take 1 s2 = ''0'' then int (digits_value 8 s2)
               else int (digits_value 10 s2))
      in if neg then max (- v) (- 2147483648) else min v 2147483647)"

subsection \<open>Configuration lines\<close>

text \<open>
  The loop of \<open>handleConfigCmd\<close> that collects the key: it reads \<open>cmdBuffer[i]\<close> before it
  tests \<open>i < ptrBuffer\<close>, and returns the index it stopped at with the key.
\<close>

function scanKey :: "char list \<Rightarrow> nat \<Rightarrow> nat \<Rightarrow> string \<Rightarrow> nat \<times> string" where
  "scanKey buf ptr i cmdString =
     (if buf ! i \<noteq> CHR ''='' \<and> i < ptr
      then scanKey buf ptr (i + 1) (cmdString @ String_of_char (buf ! i))
      else (i, cmdString))"
  by pat_completeness auto
termination
  by (relation "measure (\<lambda>(buf, ptr, i, cmdString). ptr - i)") auto

declare scanKey.simps [simp del]

text \<open>The \<open>switch\<close> of the \<open>LOGLEVEL\<close> branch.\<close>

definition loglevel_switch :: "int \<Rightarrow> effect list" where
  "loglevel_switch newValue =
     (if newValue = 0 then
        [Logger_setLoglevel Debug,
         Logger_console (''setting loglevel to '' @ [CHR 0x27] @ ''debug'' @ [CHR 0x27]) []]
      else if newValue = 1 then
        [Logger_setLoglevel Info,
         Logger_console (''setting loglevel to '' @ [CHR 0x27] @ ''info'' @ [CHR 0x27]) []]
      else if newValue = 2 then
        [Logger_console (''setting loglevel to '' @ [CHR 0x27] @ ''warning'' @ [CHR 0x27]) [],
         Logger_setLoglevel Warn]
      else if newValue = 3 then
        [Logger_console (''setting loglevel to '' @ [CHR 0x27] @ ''error'' @ [CHR 0x27]) [],
         Logger_setLoglevel Error]
      else if newValue = 4 then
        [Logger_console (''setting loglevel to '' @ [CHR 0x27] @ ''off'' @ [CHR 0x27]) [],
         Logger_setLoglevel Off]
      else [])"

text \<open>
  The branches \<open>SSID\<close>, \<open>IP\<close>, \<open>CHANNEL\<close>, \<open>SECURITY\<close> and \<open>PWD\<close> are the same code with another
  parameter name: a fresh \<open>cmdString\<close> of name, \<open>=\<close> and the text after the \<open>=\<close>, logged, sent
  as \<open>MSG_COMMAND\<close>, and then \<open>DOWN\<close> sent as \<open>MSG_COMMAND\<close>.
\<close>

definition wifi_param :: "string \<Rightarrow> string \<Rightarrow> SerialConsole \<Rightarrow> SerialConsole" where
  "wifi_param name arg s =
     (let cmdString = name @ ''='' @ arg
      in say [Logger_info (''Sent '' @ [CHR 0x22] @ ''%s'' @ [CHR 0x22] @
                           '' to WiReach wireless LAN device'') [cmdString],
              sendMessage MSG_COMMAND (Some cmdString),
              sendMessage MSG_COMMAND (Some ''DOWN'')] s)"

text \<open>
  The chain of comparisons of \<open>handleConfigCmd\<close>, from \<open>LOGLEVEL\<close> to the final \<open>else\<close>:
  \<open>cmdString\<close> is the upper-cased key, \<open>arg\<close> the C string at \<open>cmdBuffer + i\<close>, and the result
  holds \<open>updateWifi\<close>.
\<close>

definition dispatchConfig ::
  "string \<Rightarrow> string \<Rightarrow> int \<Rightarrow> SerialConsole \<Rightarrow> bool \<times> SerialConsole" where
  "dispatchConfig cmdString arg newValue s =
     (if cmdString = ''LOGLEVEL'' then
        (True, say (loglevel_switch newValue @
                    [sysPrefs_write_LOG_LEVEL (word_of_int newValue), sysPrefs_saveChecksum]) s)
      else if cmdString = ''WIREACH'' then
        (False, say [sendMessage MSG_COMMAND (Some arg),
                     Logger_info (''sent '' @ [CHR 0x22] @ ''AT+i%s'' @ [CHR 0x22] @
                                  '' to WiReach wireless LAN device'') [arg],
                     sendMessage MSG_COMMAND (Some ''DOWN'')] s)
      else if cmdString = ''SSID'' then (False, wifi_param ''WLSI'' arg s)
      else if cmdString = ''IP'' then (False, wifi_param ''DIP'' arg s)
      else if cmdString = ''CHANNEL'' then (False, wifi_param ''WLCH'' arg s)
      else if cmdString = ''SECURITY'' then (False, wifi_param ''WLPP'' arg s)
      else if cmdString = ''PWD'' then (False, wifi_param ''WPWD'' arg s)
      else if cmdString = ''OUTPUT'' \<and> newValue < 8 then
        (let outie = getOutput newValue s;
             s1 = say [Logger_console ''DOUT%d,  STATE: %d'' [newValue, outie]] s;
             s2 = (if outie \<noteq> 0 then setOutput_call newValue 0 s1
                   else setOutput_call newValue 1 s1)
         in (True,
             say [Logger_console
                    ''DOUT0:%d, DOUT1:%d, DOUT2:%d, DOUT3:%d, DOUT4:%d, DOUT5:%d, DOUT6:%d, DOUT7:%d''
                    (map (\<lambda>n. getOutput n s2) [0, 1, 2, 3, 4, 5, 6, 7])] s2))
      else if cmdString = ''NUKE'' then
        (if newValue = 1 then
           (True,
            say [Logger_console
                   ''Device settings have been nuked. Reboot to reload default settings'' []]
              (foldl (\<lambda>s' j. say [memCache_FlushAllPages]
                                (memCache_Write_call (EE_DEVICES_BASE s + EE_DEVICE_SIZE s * j) 0 s'))
                 s [0..<64]))
         else (True, s))
      else (False, say [Logger_console ''Unknown command'' []] s))"

text \<open>\<open>SerialConsole::handleConfigCmd\<close>.\<close>

definition handleConfigCmd :: "SerialConsole \<Rightarrow> SerialConsole" where
  "handleConfigCmd s0 =
     (if ptrBuffer s0 < 6 then s0
      else
        let s = s0\<lparr>cmdBuffer := (cmdBuffer s0)[ptrBuffer s0 := CHR 0x00]\<rparr>;
            (i0, cmdString) = scanKey (cmdBuffer s) (ptrBuffer s) 0 [];
            i = i0 + 1
        in if ptrBuffer s \<le> i then
             say [Logger_console ''Command needs a value..ie TORQ=3000'' [],
                  Logger_console [] []] s
           else
             let arg = cstr (drop i (cmdBuffer s));
                 newValue = strtol arg;
                 (updateWifi, s') = dispatchConfig (toUpperCase cmdString) arg newValue s
             in if updateWifi then say [sendMessage MSG_CONFIG_CHANGE None] s' else s')"

subsection \<open>Single-character commands\<close>

text \<open>
  \<open>SerialConsole::handleShortCmd\<close>. The case \<open>p\<close> enters a loop that has no exit: the call
  does not return, which is the result \<open>None\<close>. \<open>setup()\<close> of case \<open>X\<close> is the sketch's own
  function, outside the sources.
\<close>

definition wifi_reset_sequence :: "effect list" where
  "wifi_reset_sequence =
     [sendMessage MSG_COMMAND (Some ''FD''), delay 2000,
      sendMessage MSG_COMMAND (Some ''HIF=1''), delay 1000,
      sendMessage MSG_COMMAND (Some ''BDRA''), delay 1000,
      sendMessage MSG_COMMAND (Some ''WLCH=9''), delay 1000,
      sendMessage MSG_COMMAND (Some ''WLSI=!GEVCU''), delay 1000,
      sendMessage MSG_COMMAND (Some ''DIP=192.168.3.10''), delay 1000,
      sendMessage MSG_COMMAND (Some ''DPSZ=8''), delay 1000,
      sendMessage MSG_COMMAND (Some ''RPG=secret''), delay 1000,
      sendMessage MSG_COMMAND (Some ''WPWD=secret''), delay 1000,
      sendMessage MSG_COMMAND (Some ''AWS=1''), delay 1000,
      sendMessage MSG_COMMAND (Some ''DOWN''), delay 5000,
      sendMessage MSG_CONFIG_CHANGE None]"

definition handleShortCmd :: "SerialConsole \<Rightarrow> SerialConsole option" where
  "handleShortCmd s =
     (let c = cmdBuffer s ! 0
      in if c = CHR ''h'' \<or> c = CHR ''?'' \<or> c = CHR ''H'' then Some (printMenu s)
         else if c = CHR ''L'' then Some s
         else if c = CHR ''U'' then
           Some (say [Logger_console ''Operation complete.'' []]
                  (say [Logger_info ''Flushing cache'' [], memCache_FlushAllPages,
                        memCache_InvalidateAll]
                    (foldl (\<lambda>s' i. memCache_Write_call (1000 + i) (of_nat i) s')
                       (say [Logger_console
                               ''Adding a sequence of values from 0 to 255 into eeprom'' []] s)
                       [0..<256])))
         else if c = CHR ''I'' then
           Some (say (Logger_console ''Retrieving data previously saved'' [] #
                      map (\<lambda>i. Logger_console ''%d: %d''
                                 [int i, uint (memCache s (1000 + i))]) [0..<256]) s)
         else if c = CHR ''E'' then
           Some (say (Logger_console ''Reading System EEPROM values'' [] #
                      map (\<lambda>i. Logger_console ''%d: %d''
                                 [int i, uint (memCache s (EE_SYSTEM_START s + i))]) [0..<256]) s)
         else if c = CHR ''K'' then
           Some (say [Logger_console ''all outputs: ON'' []]
                  (foldl (\<lambda>s' tout. setOutput_call (int tout) 1 s') s [0..<NUM_OUTPUT s]))
         else if c = CHR ''J'' then
           Some (say [Logger_console ''all outputs: OFF'' []]
                  (foldl (\<lambda>s' tout. setOutput_call (int tout) 0 s') s [0..<NUM_OUTPUT s]))
         else if c = CHR ''p'' then None
         else if c = CHR ''S'' then
           Some (say [Logger_console ''WIFI (iChip2128) = %X'' [ICHIP2128 s]] s)
         else if c = CHR ''s'' then
           Some (say [Logger_console ''Finding and listing all nearby WiFi access points'' [],
                      sendMessage MSG_COMMAND (Some ''RP20'')] s)
         else if c = CHR ''W'' then
           Some (say [Logger_console
                        ''Setting Wifi Adapter to WPS mode (make sure you press the WPS button on your router)''
                        [],
                      sendMessage MSG_COMMAND (Some ''AWPS'')] s)
         else if c = CHR ''w'' then
           Some (say ([Logger_console
                         ''Resetting wifi to factory defaults and setting up GEVCU4.2 Ad Hoc network''
                         []] @
                      wifi_reset_sequence @
                      [Logger_console ''Wifi 4.2 initialized'' []]) s)
         else if c = CHR ''X'' then Some (say [global_setup] s)
         else Some s)"

subsection \<open>Lines and bytes\<close>

text \<open>\<open>SerialConsole::handleConsoleCmd\<close>.\<close>

definition handleConsoleCmd :: "SerialConsole \<Rightarrow> SerialConsole option" where
  "handleConsoleCmd s0 =
     (let s = s0\<lparr>handlingEvent := True\<rparr>;
          r = (if menu_state s = STATE_ROOT_MENU then
                 (if ptrBuffer s = 1 then handleShortCmd s else Some (handleConfigCmd s))
               else Some s)
      in map_option (\<lambda>s'. s'\<lparr>handlingEvent := False\<rparr>) r)"

text \<open>\<open>SerialConsole::serialEvent\<close>, with the value of \<open>SerialUSB.read()\<close> as its argument.\<close>

definition serialEvent :: "char option \<Rightarrow> SerialConsole \<Rightarrow> SerialConsole option" where
  "serialEvent incoming s =
     (case incoming of
        None \<Rightarrow> Some s
      | Some c \<Rightarrow>
          if c = CHR 0x0A \<or> c = CHR 0x0D then
            map_option (\<lambda>s'. s'\<lparr>ptrBuffer := 0\<rparr>) (handleConsoleCmd s)
          else
            Some (s\<lparr>cmdBuffer := (cmdBuffer s)[ptrBuffer s := c],
                    ptrBuffer := (if 79 < ptrBuffer s + 1 then 79 else ptrBuffer s + 1)\<rparr>))"

text \<open>
  \<open>SerialConsole::loop\<close>; the argument is \<open>None\<close> when \<open>SerialUSB.available()\<close> is 0 and the
  byte that \<open>read()\<close> will return otherwise.
\<close>

definition SerialConsole_loop :: "char option \<Rightarrow> SerialConsole \<Rightarrow> SerialConsole option" where
  "SerialConsole_loop avail s0 =
     (let s = (if \<not> cancel s0 then
                 (if loopcount s0 = 350000
                  then say [updateWifi] (s0\<lparr>loopcount := loopcount s0 + 1, cancel := True\<rparr>)
                  else s0\<lparr>loopcount := loopcount s0 + 1\<rparr>)
               else s0)
      in if handlingEvent s = False then
           (case avail of None \<Rightarrow> Some s | Some c \<Rightarrow> serialEvent (Some c) s)
         else Some s)"

text \<open>The bytes of a stream, handed to \<open>serialEvent\<close> one after the other.\<close>

fun serialEvents :: "char list \<Rightarrow> SerialConsole \<Rightarrow> SerialConsole option" where
  "serialEvents [] s = Some s"
| "serialEvents (c # cs) s =
     (case serialEvent (Some c) s of None \<Rightarrow> None | Some s' \<Rightarrow> serialEvents cs s')"

text \<open>The messages among the effects, in order.\<close>

fun messages :: "effect list \<Rightarrow> (MessageType \<times> string option) list" where
  "messages [] = []"
| "messages (sendMessage t m # es) = (t, m) # messages es"
| "messages (e # es) = messages es"

text \<open>What \<open>wifi_param\<close> adds to the effects.\<close>

definition wifi_param_effects :: "string \<Rightarrow> string \<Rightarrow> effect list" where
  "wifi_param_effects name arg =
     [Logger_info (''Sent '' @ [CHR 0x22] @ ''%s'' @ [CHR 0x22] @
                   '' to WiReach wireless LAN device'') [name @ ''='' @ arg],
      sendMessage MSG_COMMAND (Some (name @ ''='' @ arg)),
      sendMessage MSG_COMMAND (Some ''DOWN'')]"

text \<open>
  A console just constructed: \<open>init()\<close> has run, the buffer and the surroundings hold
  zeros, nothing has happened yet.
\<close>

definition console_start :: SerialConsole where
  "console_start =
     SerialConsole_init
       \<lparr>cmdBuffer = replicate 80 (CHR 0x00), ptrBuffer = 0, menu_state = STATE_ROOT_MENU,
        handlingEvent = False, loopcount = 0, cancel = False, douts = (\<lambda>n. 0),
        memCache = (\<lambda>a. 0), EE_DEVICES_BASE = 0, EE_DEVICE_SIZE = 0, EE_SYSTEM_START = 0,
        NUM_OUTPUT = 8, ICHIP2128 = 0, trace = []\<rparr>"

section \<open>Example states\<close>

text \<open>
  The object as the constructor and \<open>setup()\<close> leave it at time 0, every slot of the buffer
  default-constructed, and the platform with the prefix that the comment of \<open>sendCmd\<close> names.
\<close>

definition power_on :: ICHIPWIFI where
  "power_on =
     ICHIPWIFI_setup 0
       \<lparr>state = IDLE, sendingBuffer = replicate 64 \<lparr>cmd = [], cmd_state = IDLE\<rparr>,
        psWritePtr = 0, psReadPtr = 0, ibWritePtr = 0, tickCounter = 0, listeningSocket = 0,
        activeSockets = [0, 0, 0, 0], lastSentTime = 0, lastSentCmd = [],
        lastSentState = IDLE, didParamLoad = False, didTCPListener = False,
        serial_tx = [], serial_rx = [], debug_log = []\<rparr>"

definition at_i :: platform where
  "at_i = \<lparr>ichipCommandPrefix = ''AT+i'', isDebug = False\<rparr>"

text \<open>A call of \<open>sendCmd\<close> as the slot it fills when the engine is busy.\<close>

definition slot :: "nat \<times> string \<times> ICHIP_COMM_STATE \<Rightarrow> SendBuff" where
  "slot x = \<lparr>cmd = fst (snd x), cmd_state = snd (snd x)\<rparr>"

text \<open>
  The engine after \<open>getNextParam()\<close> at power-on: \<open>WNXT\<close> is in flight and the queue is
  empty. Then 65 commands \<open>CMD1\<close> to \<open>CMD65\<close>, and the answer of the adapter.
\<close>

definition busy_start :: ICHIPWIFI where
  "busy_start = getNextParam at_i 0 power_on"

definition run65 :: "(nat \<times> string \<times> ICHIP_COMM_STATE) list" where
  "run65 = map (\<lambda>k. (k, ''CMD'' @ dec k, SET_PARAM)) [1..<66]"

definition i_ok :: string where
  "i_ok = ''I/OK'' @ [CHR 0x0D]"

section \<open>Properties of the protocol engine\<close>

lemma and_63: "(n::nat) AND 63 = n mod 64"
proof -
  have "(63::nat) = mask 6" by (simp add: mask_eq_exp_minus_1)
  then show ?thesis by (simp only: flip: take_bit_eq_mask) (simp add: take_bit_eq_mod)
qed

lemma sendCmd_busy:
  "state s \<noteq> IDLE \<Longrightarrow>
   sendCmd p t c st s =
     s\<lparr>sendingBuffer := (sendingBuffer s)[psWritePtr s := \<lparr>cmd = c, cmd_state = st\<rparr>],
       psWritePtr := (psWritePtr s + 1) mod 64,
       debug_log := (if isDebug p then debug_log s @ [''Buffer cmd: '' @ c] else debug_log s)\<rparr>"
  by (simp add: sendCmd_def and_63)

lemma sendCmds_busy_frame:
  "state s \<noteq> IDLE \<Longrightarrow>
   state (sendCmds p cs s) = state s \<and> serial_tx (sendCmds p cs s) = serial_tx s \<and>
   psReadPtr (sendCmds p cs s) = psReadPtr s \<and>
   lastSentCmd (sendCmds p cs s) = lastSentCmd s \<and>
   lastSentState (sendCmds p cs s) = lastSentState s \<and>
   length (sendingBuffer (sendCmds p cs s)) = length (sendingBuffer s)"
proof (induction cs arbitrary: s)
  case Nil
  show ?case by simp
next
  case (Cons x cs)
  obtain t c st where x: "x = (t, c, st)" by (cases x)
  let ?s = "sendCmd p t c st s"
  have busy: "state ?s \<noteq> IDLE" using Cons.prems by (simp add: sendCmd_busy)
  show ?case using Cons.IH [OF busy] Cons.prems by (simp add: x sendCmd_busy)
qed

text \<open>
  C2. A call of \<open>sendCmd\<close> in state \<open>IDLE\<close> writes prefix, payload and the terminator 13 to the
  line, records the command as the one in flight and takes the given state, leaving the queue
  alone. A call in any other state writes the pair into the slot at the write pointer,
  advances the pointer modulo 64 and writes nothing to the line; the single state variable and
  the record of the command in flight stay as they are. No run of calls made while busy
  transmits anything.
\<close>

theorem sendCmd_idle_transmits_busy_buffers:
  "(state s = IDLE \<longrightarrow>
      serial_tx (sendCmd p t c st s) = serial_tx s @ ichipCommandPrefix p @ c @ [CHR 0x0D] \<and>
      lastSentCmd (sendCmd p t c st s) = c \<and>
      lastSentState (sendCmd p t c st s) = st \<and>
      lastSentTime (sendCmd p t c st s) = t \<and>
      state (sendCmd p t c st s) = st \<and>
      sendingBuffer (sendCmd p t c st s) = sendingBuffer s \<and>
      psWritePtr (sendCmd p t c st s) = psWritePtr s \<and>
      psReadPtr (sendCmd p t c st s) = psReadPtr s) \<and>
   (state s \<noteq> IDLE \<longrightarrow>
      sendingBuffer (sendCmd p t c st s) =
        (sendingBuffer s)[psWritePtr s := \<lparr>cmd = c, cmd_state = st\<rparr>] \<and>
      psWritePtr (sendCmd p t c st s) = (psWritePtr s + 1) mod 64 \<and>
      psReadPtr (sendCmd p t c st s) = psReadPtr s \<and>
      serial_tx (sendCmd p t c st s) = serial_tx s \<and>
      state (sendCmd p t c st s) = state s \<and>
      lastSentCmd (sendCmd p t c st s) = lastSentCmd s \<and>
      lastSentState (sendCmd p t c st s) = lastSentState s \<and>
      lastSentTime (sendCmd p t c st s) = lastSentTime s \<and>
      (\<forall>cs. serial_tx (sendCmds p cs s) = serial_tx s \<and> state (sendCmds p cs s) = state s))"
proof (intro conjI impI)
  assume busy: "state s \<noteq> IDLE"
  show "\<forall>cs. serial_tx (sendCmds p cs s) = serial_tx s \<and> state (sendCmds p cs s) = state s"
    using sendCmds_busy_frame [OF busy] by blast
qed (simp_all add: sendCmd_def and_63)

theorem sendCmd_idle_transmits_busy_buffers_witness:
  "state power_on = IDLE \<and>
   serial_tx (sendCmd at_i 5 ''WNXT'' GET_PARAM power_on) = ''AT+iWNXT'' @ [CHR 0x0D] \<and>
   state (sendCmd at_i 5 ''WNXT'' GET_PARAM power_on) \<noteq> IDLE \<and>
   serial_tx (sendCmd at_i 9 ''DOWN'' SET_PARAM (sendCmd at_i 5 ''WNXT'' GET_PARAM power_on)) =
     ''AT+iWNXT'' @ [CHR 0x0D] \<and>
   psWritePtr (sendCmd at_i 9 ''DOWN'' SET_PARAM (sendCmd at_i 5 ''WNXT'' GET_PARAM power_on)) = 1"
proof -
  let ?s1 = "sendCmd at_i 5 ''WNXT'' GET_PARAM power_on"
  have idle: "state power_on = IDLE"
    by (simp add: power_on_def ICHIPWIFI_setup_def)
  have tx0: "serial_tx power_on = []" and w0: "psWritePtr power_on = 0"
    by (simp_all add: power_on_def ICHIPWIFI_setup_def)
  have pre: "ichipCommandPrefix at_i = ''AT+i''"
    by (simp add: at_i_def)
  from sendCmd_idle_transmits_busy_buffers [of power_on at_i 5 "''WNXT''" GET_PARAM] idle
  have first: "serial_tx ?s1 = serial_tx power_on @ ichipCommandPrefix at_i @ ''WNXT'' @ [CHR 0x0D]"
    and st: "state ?s1 = GET_PARAM" and w1: "psWritePtr ?s1 = psWritePtr power_on"
    by blast+
  have busy: "state ?s1 \<noteq> IDLE" using st by simp
  from sendCmd_idle_transmits_busy_buffers [of ?s1 at_i 9 "''DOWN''" SET_PARAM] busy
  have second: "serial_tx (sendCmd at_i 9 ''DOWN'' SET_PARAM ?s1) = serial_tx ?s1"
    and w2: "psWritePtr (sendCmd at_i 9 ''DOWN'' SET_PARAM ?s1) = (psWritePtr ?s1 + 1) mod 64"
    by blast+
  show ?thesis using idle first busy second w1 w2 tx0 w0 pre by simp
qed

lemma rotate_enqueue:
  assumes "w < length buf"
  shows "rotate ((w + 1) mod length buf) (buf[w := x]) = tl (rotate w buf) @ [x]"
proof (cases "w + 1 < length buf")
  case True
  have ne: "drop w buf \<noteq> []" using assms by simp
  have "rotate (w + 1) (buf[w := x]) = drop (w + 1) buf @ take w buf @ [x]"
    using True assms by (simp add: rotate_drop_take take_Suc_conv_app_nth)
  moreover have "tl (rotate w buf) = drop (w + 1) buf @ take w buf"
    using assms ne by (simp add: rotate_drop_take drop_Suc tl_drop)
  ultimately show ?thesis using True by simp
next
  case False
  then have L: "length buf = w + 1" using assms by simp
  have d: "drop w buf = [buf ! w]"
    using L by (metis Cons_nth_drop_Suc assms drop_all le_refl Suc_eq_plus1)
  have "buf[w := x] = take w buf @ [x]"
    using L by (metis Suc_eq_plus1 assms lessI take_all take_update_cancel le_refl length_list_update take_Suc_conv_app_nth nth_list_update_eq)
  moreover have "tl (rotate w buf) = take w buf"
    using assms d by (simp add: rotate_drop_take)
  ultimately show ?thesis using L by simp
qed

lemma sendCmds_ring:
  assumes "state s \<noteq> IDLE" "length (sendingBuffer s) = 64" "psWritePtr s < 64"
  shows "psWritePtr (sendCmds p cs s) = (psWritePtr s + length cs) mod 64 \<and>
         rotate (psWritePtr (sendCmds p cs s)) (sendingBuffer (sendCmds p cs s)) =
           drop (length cs) (rotate (psWritePtr s) (sendingBuffer s) @ map slot cs)"
  using assms
proof (induction cs arbitrary: s)
  case Nil
  then show ?case by simp
next
  case (Cons x cs)
  obtain t c st where x: "x = (t, c, st)" by (cases x)
  let ?s = "sendCmd p t c st s"
  have busy: "state ?s \<noteq> IDLE" and len: "length (sendingBuffer ?s) = 64"
    and w: "psWritePtr ?s = (psWritePtr s + 1) mod 64"
    and buf: "sendingBuffer ?s = (sendingBuffer s)[psWritePtr s := slot x]"
    using Cons.prems by (simp_all add: sendCmd_busy x slot_def)
  have w64: "psWritePtr ?s < 64" using w by simp
  have step: "rotate (psWritePtr ?s) (sendingBuffer ?s) =
              tl (rotate (psWritePtr s) (sendingBuffer s)) @ [slot x]"
    using rotate_enqueue [of "psWritePtr s" "sendingBuffer s" "slot x"] Cons.prems
    by (simp add: w buf)
  have ne: "rotate (psWritePtr s) (sendingBuffer s) \<noteq> []" using Cons.prems by auto
  have eq: "drop (length cs) ((tl (rotate (psWritePtr s) (sendingBuffer s)) @ [slot x]) @ map slot cs) =
        drop (length (x # cs)) (rotate (psWritePtr s) (sendingBuffer s) @ map slot (x # cs))"
    using ne by (cases "rotate (psWritePtr s) (sendingBuffer s)") simp_all
  have run: "sendCmds p (x # cs) s = sendCmds p cs ?s" by (simp add: x)
  have ptr: "(psWritePtr ?s + length cs) mod 64 = (psWritePtr s + length (x # cs)) mod 64"
    by (simp add: w mod_simps)
  note ih = Cons.IH [OF busy len w64]
  have A: "psWritePtr (sendCmds p cs ?s) = (psWritePtr s + length (x # cs)) mod 64"
    and B: "rotate (psWritePtr (sendCmds p cs ?s)) (sendingBuffer (sendCmds p cs ?s)) =
         drop (length (x # cs)) (rotate (psWritePtr s) (sendingBuffer s) @ map slot (x # cs))"
    using ih [THEN conjunct1] ih [THEN conjunct2] by (simp_all only: ptr step eq)
  show ?case unfolding run using A B by blast
qed

lemma loops_id: "loops n s = s"
  by (induction n arbitrary: s) (simp_all add: loop_def)

lemma busy_start_facts:
  "state busy_start = GET_PARAM" "length (sendingBuffer busy_start) = 64"
  "psWritePtr busy_start = 0" "psReadPtr busy_start = 0"
  "serial_tx busy_start = ''AT+iWNXT'' @ [CHR 0x0D]" "serial_rx busy_start = []"
  by (simp_all add: busy_start_def getNextParam_def sendCmd_def power_on_def
      ICHIPWIFI_setup_def at_i_def)

lemma receive_frame:
  "state (receive r s) = state s" "serial_tx (receive r s) = serial_tx s"
  "serial_rx (receive r s) = serial_rx s @ r" "psReadPtr (receive r s) = psReadPtr s"
  "psWritePtr (receive r s) = psWritePtr s" "sendingBuffer (receive r s) = sendingBuffer s"
  by (simp_all add: receive_def)

text \<open>
  C1. A command is in flight and the adapter answers with a complete line. However often the
  polling entry point \<open>loop()\<close> then runs, the line stays unread, the state does not go back
  to \<open>IDLE\<close>, nothing is taken from the queue and nothing is sent;
  \<open>processParameterChange\<close> changes nothing either.
\<close>

theorem loop_ignores_response:
  "state (loops n (receive i_ok busy_start)) = GET_PARAM \<and>
   serial_rx (loops n (receive i_ok busy_start)) = i_ok \<and>
   serial_tx (loops n (receive i_ok busy_start)) = ''AT+iWNXT'' @ [CHR 0x0D] \<and>
   psReadPtr (loops n (receive i_ok busy_start)) = 0 \<and>
   processParameterChange i_ok (receive i_ok busy_start) = receive i_ok busy_start"
  by (simp add: loops_id receive_frame busy_start_facts processParameterChange_def)

text \<open>
  C3, as the code has it. The queue is empty (read and write pointer equal) and the engine
  busy; 65 commands are handed to \<open>sendCmd\<close>. After the first 64 the slots, read in ring
  order from the read pointer, hold the 64 commands in the order of the calls, and the write
  pointer is back on the read pointer. The 65th call overwrites the slot of the first command
  and nothing else: the slots, read in ring order from the write pointer, then hold commands 2
  to 65. The read pointer is where it was, the write pointer is one slot after it, and nothing
  was written to the line.
\<close>

theorem sendCmd_65th_overwrites_oldest:
  assumes "state s \<noteq> IDLE" "length (sendingBuffer s) = 64" "psWritePtr s < 64"
    "psReadPtr s = psWritePtr s" "length cs = 65"
  shows "rotate (psReadPtr s) (sendingBuffer (sendCmds p (take 64 cs) s)) = map slot (take 64 cs) \<and>
         psWritePtr (sendCmds p (take 64 cs) s) = psReadPtr s \<and>
         rotate (psWritePtr (sendCmds p cs s)) (sendingBuffer (sendCmds p cs s)) = map slot (drop 1 cs) \<and>
         psWritePtr (sendCmds p cs s) = (psReadPtr s + 1) mod 64 \<and>
         psReadPtr (sendCmds p cs s) = psReadPtr s \<and>
         serial_tx (sendCmds p cs s) = serial_tx s"
proof -
  let ?R = "rotate (psWritePtr s) (sendingBuffer s)"
  have l64: "length (take 64 cs) = 64" using assms(5) by simp
  have lr: "length ?R = 64" using assms(2) by simp
  note r64 = sendCmds_ring [OF assms(1-3), of p "take 64 cs"]
  note r65 = sendCmds_ring [OF assms(1-3), of p cs]
  have w64: "(psWritePtr s + 64) mod 64 = psWritePtr s" using assms(3) by simp
  have "psWritePtr s + 65 = (psWritePtr s + 1) + 64" by simp
  then have w65: "(psWritePtr s + 65) mod 64 = (psWritePtr s + 1) mod 64"
    by (simp only: mod_add_self2)
  have d64: "drop 64 (?R @ map slot (take 64 cs)) = map slot (take 64 cs)" using lr by simp
  have d65: "drop 65 (?R @ map slot cs) = map slot (drop 1 cs)" using lr by (simp add: drop_map)
  have a: "psWritePtr (sendCmds p (take 64 cs) s) = psWritePtr s"
    using r64 [THEN conjunct1] by (simp only: l64 w64)
  have b: "rotate (psWritePtr s) (sendingBuffer (sendCmds p (take 64 cs) s)) = map slot (take 64 cs)"
    using r64 [THEN conjunct2] by (simp only: a l64 d64)
  have c: "psWritePtr (sendCmds p cs s) = (psWritePtr s + 1) mod 64"
    using r65 [THEN conjunct1] by (simp only: assms(5) w65)
  have d: "rotate (psWritePtr (sendCmds p cs s)) (sendingBuffer (sendCmds p cs s)) = map slot (drop 1 cs)"
    using r65 [THEN conjunct2] by (simp only: assms(5) d65)
  note f = sendCmds_busy_frame [OF assms(1), of p cs]
  have e: "psReadPtr (sendCmds p cs s) = psReadPtr s" and g: "serial_tx (sendCmds p cs s) = serial_tx s"
    using f by blast+
  show ?thesis unfolding assms(4) using a b c d e [unfolded assms(4)] g by blast
qed

theorem sendCmd_65th_overwrites_oldest_witness:
  "state busy_start \<noteq> IDLE \<and> length (sendingBuffer busy_start) = 64 \<and>
   psWritePtr busy_start < 64 \<and> psReadPtr busy_start = psWritePtr busy_start \<and>
   length run65 = 65 \<and>
   rotate 0 (sendingBuffer (sendCmds at_i (take 64 run65) busy_start)) = map slot (take 64 run65) \<and>
   rotate (psWritePtr (sendCmds at_i run65 busy_start)) (sendingBuffer (sendCmds at_i run65 busy_start)) =
     map slot (drop 1 run65) \<and>
   psWritePtr (sendCmds at_i run65 busy_start) = 1 \<and>
   psReadPtr (sendCmds at_i run65 busy_start) = 0"
proof -
  have h: "state busy_start \<noteq> IDLE" "length (sendingBuffer busy_start) = 64"
    "psWritePtr busy_start < 64" "psReadPtr busy_start = psWritePtr busy_start"
    by (simp_all add: busy_start_facts)
  have l: "length run65 = 65" by (simp add: run65_def)
  note t = sendCmd_65th_overwrites_oldest [OF h l, of at_i]
  have r: "psReadPtr busy_start = 0" by (simp add: busy_start_facts)
  have t1: "rotate 0 (sendingBuffer (sendCmds at_i (take 64 run65) busy_start)) =
            map slot (take 64 run65)"
    using t [unfolded r] by blast
  have t3: "rotate (psWritePtr (sendCmds at_i run65 busy_start))
              (sendingBuffer (sendCmds at_i run65 busy_start)) = map slot (drop 1 run65)"
    using t by blast
  have "psWritePtr (sendCmds at_i run65 busy_start) = (0 + 1) mod 64"
    using t [unfolded r] by blast
  then have t4: "psWritePtr (sendCmds at_i run65 busy_start) = 1" by simp
  have t5: "psReadPtr (sendCmds at_i run65 busy_start) = 0"
    using t [unfolded r] by blast
  show ?thesis using h l t1 t3 t4 t5 by blast
qed

text \<open>
  C3 as written fails for the commands \<open>CMD1\<close> to \<open>CMD65\<close> handed over while \<open>WNXT\<close> is in
  flight: the read pointer after the 65th command is the read pointer after the 64th, not one
  slot further. Both pointers are 0 after the 64th command, and the write pointer is 1 after
  the 65th, so by the two pointers one entry is unread then, not 64.
\<close>

theorem sendCmd_65th_read_pointer_unmoved:
  "psReadPtr (sendCmds at_i (take 64 run65) busy_start) = 0 \<and>
   psWritePtr (sendCmds at_i (take 64 run65) busy_start) = 0 \<and>
   psReadPtr (sendCmds at_i run65 busy_start) = 0 \<and>
   psWritePtr (sendCmds at_i run65 busy_start) = 1 \<and>
   psReadPtr (sendCmds at_i run65 busy_start) \<noteq>
     (psReadPtr (sendCmds at_i (take 64 run65) busy_start) + 1) mod 64"
proof -
  have b: "state busy_start \<noteq> IDLE" by (simp add: busy_start_facts)
  have l: "length run65 = 65" "length (take 64 run65) = 64" by (simp_all add: run65_def)
  have len: "length (sendingBuffer busy_start) = 64" and w: "psWritePtr busy_start < 64"
    by (simp_all add: busy_start_facts)
  have r64: "psReadPtr (sendCmds at_i (take 64 run65) busy_start) = 0"
    and r65: "psReadPtr (sendCmds at_i run65 busy_start) = 0"
    using sendCmds_busy_frame [OF b, of at_i "take 64 run65"]
      sendCmds_busy_frame [OF b, of at_i run65]
    by (simp_all add: busy_start_facts)
  have w64: "psWritePtr (sendCmds at_i (take 64 run65) busy_start) = 0"
    using sendCmds_ring [OF b len w, of at_i "take 64 run65", THEN conjunct1]
    by (simp only: l busy_start_facts) simp
  have w65: "psWritePtr (sendCmds at_i run65 busy_start) = 1"
    using sendCmds_ring [OF b len w, of at_i run65, THEN conjunct1]
    by (simp only: l busy_start_facts) simp
  show ?thesis by (simp add: r64 r65 w64 w65)
qed

text \<open>
  C4. \<open>WLSI=MyNet\<close> is sent at power-on, \<open>DOWN\<close> is handed over while it is in flight, and
  the adapter answers. \<open>DOWN\<close> sits in slot 0 of the queue; however often \<open>loop()\<close> runs, it
  is not taken out (the read pointer stays 0) and the line carries the first command only.
\<close>

theorem buffered_command_never_sent:
  "serial_tx (loops n (receive i_ok
       (sendCmd1 at_i 1 ''DOWN'' (sendCmd1 at_i 0 ''WLSI=MyNet'' power_on)))) =
     ''AT+iWLSI=MyNet'' @ [CHR 0x0D] \<and>
   state (loops n (receive i_ok
       (sendCmd1 at_i 1 ''DOWN'' (sendCmd1 at_i 0 ''WLSI=MyNet'' power_on)))) = SET_PARAM \<and>
   psReadPtr (loops n (receive i_ok
       (sendCmd1 at_i 1 ''DOWN'' (sendCmd1 at_i 0 ''WLSI=MyNet'' power_on)))) = 0 \<and>
   psWritePtr (loops n (receive i_ok
       (sendCmd1 at_i 1 ''DOWN'' (sendCmd1 at_i 0 ''WLSI=MyNet'' power_on)))) = 1 \<and>
   sendingBuffer (loops n (receive i_ok
       (sendCmd1 at_i 1 ''DOWN'' (sendCmd1 at_i 0 ''WLSI=MyNet'' power_on)))) ! 0 =
     \<lparr>cmd = ''DOWN'', cmd_state = SET_PARAM\<rparr>"
  by (simp add: loops_id receive_def sendCmd1_def sendCmd_def power_on_def
      ICHIPWIFI_setup_def at_i_def)

text \<open>
  C5. Five bytes sent to socket 2 at power-on: the command that goes to the line has two
  per cent signs after \<open>SSND\<close>, since the literal \<open>"SSND%%:"\<close> is concatenated and never
  passes through \<open>sprintf\<close>.
\<close>

theorem sendToSocket_doubles_percent:
  "map_sum id serial_tx (sendToSocket at_i 0 2 ''hello'' power_on) =
     Inr (''AT+iSSND%%:002,5:hello'' @ [CHR 0x0D])"
  by code_simp

section \<open>Properties of the serial console\<close>

lemma menu_root: "(m::CONSOLE_STATE) = STATE_ROOT_MENU"
  by (cases m)

lemma serialEvents_append:
  "serialEvents (xs @ ys) s =
     (case serialEvents xs s of None \<Rightarrow> None | Some s' \<Rightarrow> serialEvents ys s')"
  by (induction xs arbitrary: s) (simp_all split: option.splits)

lemma serialEvent_byte:
  "c \<noteq> CHR 0x0A \<Longrightarrow> c \<noteq> CHR 0x0D \<Longrightarrow>
   serialEvent (Some c) s =
     Some (s\<lparr>cmdBuffer := (cmdBuffer s)[ptrBuffer s := c],
             ptrBuffer := min (ptrBuffer s + 1) 79\<rparr>)"
  by (simp add: serialEvent_def min_def)

lemma take_79_step:
  assumes "k \<le> 79" "length buf = 80"
  shows "take 79 (take (min (k + 1) 79) (buf[k := c]) @ cs) = take 79 (take k buf @ c # cs)"
proof (cases "k < 79")
  case True
  then have "take (k + 1) (buf[k := c]) = take k buf @ [c]"
    using assms by (simp add: take_Suc_conv_app_nth)
  then show ?thesis using True by (simp add: min_def)
next
  case False
  then have k: "k = 79" using assms by simp
  show ?thesis using assms by (simp add: k)
qed

lemma serialEvents_bytes:
  assumes "CHR 0x0A \<notin> set bs" "CHR 0x0D \<notin> set bs" "ptrBuffer s \<le> 79" "length (cmdBuffer s) = 80"
  shows "\<exists>B. serialEvents bs s = Some (s\<lparr>cmdBuffer := B, ptrBuffer := min (ptrBuffer s + length bs) 79\<rparr>) \<and>
             length B = 80 \<and>
             take 79 (take (min (ptrBuffer s + length bs) 79) B) = take 79 (take (ptrBuffer s) (cmdBuffer s) @ bs)"
  using assms
proof (induction bs arbitrary: s)
  case Nil
  have "s\<lparr>cmdBuffer := cmdBuffer s, ptrBuffer := min (ptrBuffer s + length ([]::char list)) 79\<rparr> = s"
    using Nil.prems by (simp add: min_def)
  then show ?case using Nil.prems by (intro exI [of _ "cmdBuffer s"]) (simp add: min_def)
next
  case (Cons c cs)
  let ?s = "s\<lparr>cmdBuffer := (cmdBuffer s)[ptrBuffer s := c], ptrBuffer := min (ptrBuffer s + 1) 79\<rparr>"
  have "c \<noteq> CHR 0x0A" "c \<noteq> CHR 0x0D" using Cons.prems by auto
  then have ev: "serialEvent (Some c) s = Some ?s"
    by (rule serialEvent_byte)
  have p: "ptrBuffer ?s \<le> 79" "length (cmdBuffer ?s) = 80"
    "CHR 0x0A \<notin> set cs" "CHR 0x0D \<notin> set cs"
    using Cons.prems by simp_all
  from Cons.IH [OF p(3) p(4) p(1) p(2)]
  obtain B where B: "serialEvents cs ?s = Some (?s\<lparr>cmdBuffer := B, ptrBuffer := min (ptrBuffer ?s + length cs) 79\<rparr>)"
    "length B = 80"
    "take 79 (take (min (ptrBuffer ?s + length cs) 79) B) = take 79 (take (ptrBuffer ?s) (cmdBuffer ?s) @ cs)"
    by blast
  have m: "min (ptrBuffer ?s + length cs) 79 = min (ptrBuffer s + length (c # cs)) 79"
    by (simp add: min_def)
  have st: "?s\<lparr>cmdBuffer := B, ptrBuffer := min (ptrBuffer s + length (c # cs)) 79\<rparr> =
            s\<lparr>cmdBuffer := B, ptrBuffer := min (ptrBuffer s + length (c # cs)) 79\<rparr>"
    by simp
  have tk: "take 79 (take (ptrBuffer ?s) (cmdBuffer ?s) @ cs) =
            take 79 (take (ptrBuffer s) (cmdBuffer s) @ c # cs)"
    using take_79_step [of "ptrBuffer s" "cmdBuffer s" c cs] Cons.prems by simp
  have run: "serialEvents (c # cs) s = serialEvents cs ?s" using ev by simp
  note F1 = B(1) [unfolded m st, folded run]
  note F3 = B(3) [unfolded m tk]
  show ?case using F1 B(2) F3 by blast
qed


lemma cstr_zero: "cstr (xs @ CHR 0x00 # ys) = cstr xs"
  by (induction xs) (simp_all add: cstr_def)

lemma terminated_buffer:
  assumes "n < length buf" "i \<le> n"
  shows "drop i (buf[n := CHR 0x00]) = drop i (take n buf) @ CHR 0x00 # drop (Suc n) buf"
  using assms by (simp add: upd_conv_take_nth_drop)

lemma cstr_terminated:
  assumes "n < length buf" "i \<le> n"
  shows "cstr (drop i (buf[n := CHR 0x00])) = cstr (drop i (take n buf))"
  using terminated_buffer [OF assms] by (simp add: cstr_zero)

lemma scanKey_spec:
  assumes "n < length buf" "buf ! n \<noteq> CHR ''=''" "i \<le> n"
  shows "scanKey buf n i acc =
           (i + length (takeWhile (\<lambda>c. c \<noteq> CHR ''='') (drop i (take n buf))),
            acc @ concat (map String_of_char (takeWhile (\<lambda>c. c \<noteq> CHR ''='') (drop i (take n buf)))))"
  using assms
proof (induction buf n i acc rule: scanKey.induct)
  case (1 buf ptr i cmdString)
  show ?case
  proof (cases "i < ptr")
    case False
    then have "i = ptr" using "1.prems" by simp
    then show ?thesis using "1.prems" by (simp add: scanKey.simps)
  next
    case True
    then have d: "drop i (take ptr buf) = buf ! i # drop (Suc i) (take ptr buf)"
      using "1.prems" Cons_nth_drop_Suc [of i "take ptr buf"] by simp
    show ?thesis
    proof (cases "buf ! i = CHR ''=''")
      case True
      then show ?thesis by (simp add: scanKey.simps d)
    next
      case False
      have "scanKey buf ptr i cmdString = scanKey buf ptr (i + 1) (cmdString @ String_of_char (buf ! i))"
        using False True by (simp add: scanKey.simps)
      also have "\<dots> = (i + 1 + length (takeWhile (\<lambda>c. c \<noteq> CHR ''='') (drop (i + 1) (take ptr buf))),
            (cmdString @ String_of_char (buf ! i)) @
            concat (map String_of_char (takeWhile (\<lambda>c. c \<noteq> CHR ''='') (drop (i + 1) (take ptr buf)))))"
        using "1.IH" False True "1.prems" by simp
      finally show ?thesis using False by (simp add: d)
    qed
  qed
qed

lemma handleConfigCmd_short: "ptrBuffer s < 6 \<Longrightarrow> handleConfigCmd s = s"
  by (simp add: handleConfigCmd_def)

lemma takeWhile_no_value:
  assumes "CHR ''='' \<notin> set (butlast bs)"
  shows "length bs \<le> length (takeWhile (\<lambda>c. c \<noteq> CHR ''='') bs) + 1"
proof (cases bs rule: rev_cases)
  case Nil
  then show ?thesis by simp
next
  case (snoc ys y)
  then have "\<And>x. x \<in> set ys \<Longrightarrow> x \<noteq> CHR ''=''" using assms by auto
  then have "takeWhile (\<lambda>c. c \<noteq> CHR ''='') (ys @ [y]) = ys @ takeWhile (\<lambda>c. c \<noteq> CHR ''='') [y]"
    by (rule takeWhile_append2)
  then show ?thesis using snoc by simp
qed

lemma handleConfigCmd_no_value:
  assumes "ptrBuffer s = n" "n < length (cmdBuffer s)" "6 \<le> n"
    "CHR ''='' \<notin> set (butlast (take n (cmdBuffer s)))"
  shows "handleConfigCmd s =
           say [Logger_console ''Command needs a value..ie TORQ=3000'' [], Logger_console [] []]
             (s\<lparr>cmdBuffer := (cmdBuffer s)[n := CHR 0x00]\<rparr>)"
proof -
  let ?buf = "(cmdBuffer s)[n := CHR 0x00]"
  have tk: "take n ?buf = take n (cmdBuffer s)" by simp
  have sk: "scanKey ?buf n 0 [] =
        (length (takeWhile (\<lambda>c. c \<noteq> CHR ''='') (take n (cmdBuffer s))),
         concat (map String_of_char (takeWhile (\<lambda>c. c \<noteq> CHR ''='') (take n (cmdBuffer s)))))"
    using scanKey_spec [of n ?buf 0 "[]"] assms(2) by (simp add: tk)
  have "n \<le> length (takeWhile (\<lambda>c. c \<noteq> CHR ''='') (take n (cmdBuffer s))) + 1"
    using takeWhile_no_value [OF assms(4)] assms(2) by simp
  then show ?thesis
    using assms(1,3) by (simp add: handleConfigCmd_def sk)
qed

lemma handleConfigCmd_assign:
  assumes "ptrBuffer s = n" "n < length (cmdBuffer s)" "6 \<le> n"
    "take n (cmdBuffer s) = key @ CHR ''='' # v" "CHR ''='' \<notin> set key" "v \<noteq> []"
  shows "handleConfigCmd s =
           (let r = dispatchConfig (toUpperCase (concat (map String_of_char key))) (cstr v)
                      (strtol (cstr v)) (s\<lparr>cmdBuffer := (cmdBuffer s)[n := CHR 0x00]\<rparr>)
            in if fst r then say [sendMessage MSG_CONFIG_CHANGE None] (snd r) else snd r)"
proof -
  let ?buf = "(cmdBuffer s)[n := CHR 0x00]"
  have tk: "take n ?buf = key @ CHR ''='' # v" using assms(4) by simp
  have tw: "takeWhile (\<lambda>c. c \<noteq> CHR ''='') (key @ CHR ''='' # v) = key"
    using assms(5) by (auto simp: takeWhile_tail)
  have sk: "scanKey ?buf n 0 [] = (length key, concat (map String_of_char key))"
    using scanKey_spec [of n ?buf 0 "[]"] assms(2) by (simp add: tk tw)
  have len: "n = length key + 1 + length v"
    using arg_cong [OF assms(4), of length] assms(2) by simp
  have lt: "length key + 1 < n" using len assms(6) by simp
  have "cstr (drop (length key + 1) ?buf) = cstr (drop (length key + 1) (take n (cmdBuffer s)))"
    using cstr_terminated [of n "cmdBuffer s" "length key + 1"] assms(2) lt by simp
  then have arg: "cstr (drop (length key + 1) ?buf) = cstr v"
    by (simp add: assms(4))
  show ?thesis
    using assms(1,3) lt arg
    by (simp add: handleConfigCmd_def sk Let_def split: prod.splits)
qed


lemma serialEvent_terminator:
  assumes "t = CHR 0x0A \<or> t = CHR 0x0D" "ptrBuffer s \<noteq> 1"
  shows "serialEvent (Some t) s =
           Some ((handleConfigCmd (s\<lparr>handlingEvent := True\<rparr>))\<lparr>handlingEvent := False, ptrBuffer := 0\<rparr>)"
  using assms menu_root [of "menu_state s"]
  by (auto simp add: serialEvent_def handleConsoleCmd_def)

lemma console_line:
  assumes "CHR 0x0A \<notin> set bs" "CHR 0x0D \<notin> set bs" "length bs \<le> 79" "length bs \<noteq> 1"
    "ptrBuffer s = 0" "length (cmdBuffer s) = 80" "t = CHR 0x0A \<or> t = CHR 0x0D"
  shows "\<exists>B. length B = 80 \<and> take (length bs) B = bs \<and>
             serialEvents (bs @ [t]) s =
               Some ((handleConfigCmd (s\<lparr>cmdBuffer := B, ptrBuffer := length bs, handlingEvent := True\<rparr>))
                      \<lparr>handlingEvent := False, ptrBuffer := 0\<rparr>)"
proof -
  have p: "ptrBuffer s \<le> 79" using assms(5) by simp
  have m: "min (ptrBuffer s + length bs) 79 = length bs" using assms(3,5) by simp
  from serialEvents_bytes [OF assms(1,2) p assms(6)]
  obtain B where B: "serialEvents bs s = Some (s\<lparr>cmdBuffer := B, ptrBuffer := length bs\<rparr>)"
    "length B = 80" "take 79 (take (length bs) B) = take 79 (take (ptrBuffer s) (cmdBuffer s) @ bs)"
    unfolding m by blast
  have tk: "take (length bs) B = bs" using B(3) assms(3,5) by (simp add: min_def)
  let ?S = "s\<lparr>cmdBuffer := B, ptrBuffer := length bs\<rparr>"
  have "ptrBuffer ?S \<noteq> 1" using assms(4) by simp
  from serialEvent_terminator [OF assms(7) this]
  have "serialEvents (bs @ [t]) s =
        Some ((handleConfigCmd (?S\<lparr>handlingEvent := True\<rparr>))\<lparr>handlingEvent := False, ptrBuffer := 0\<rparr>)"
    by (simp add: serialEvents_append B(1))
  then show ?thesis using B(2) tk by (intro exI [of _ B]) simp
qed

lemma handleConfigCmd_terminates_line:
  assumes "ptrBuffer s = n" 
  shows "6 \<le> n \<Longrightarrow> handleConfigCmd s = handleConfigCmd (s\<lparr>cmdBuffer := (cmdBuffer s)[n := CHR 0x00]\<rparr>)"
  using assms by (simp add: handleConfigCmd_def)

lemma messages_append: "messages (xs @ ys) = messages xs @ messages ys"
  by (induction xs rule: messages.induct) simp_all

lemma say_frame:
  "trace (say es s) = trace s @ es" "douts (say es s) = douts s" "memCache (say es s) = memCache s"
  "cmdBuffer (say es s) = cmdBuffer s" "ptrBuffer (say es s) = ptrBuffer s"
  by (simp_all add: say_def)

lemma strtol_empty: "strtol [] = 0"
  by (simp add: strtol_def is_hex_prefix_def digits_value_def)

lemma assignment_line:
  assumes "CHR ''='' \<notin> set key" "v \<noteq> []"
    "CHR 0x0A \<notin> set (key @ v)" "CHR 0x0D \<notin> set (key @ v)"
    "6 \<le> length key + 1 + length v" "length key + 1 + length v \<le> 79"
    "ptrBuffer s = 0" "length (cmdBuffer s) = 80" "t = CHR 0x0A \<or> t = CHR 0x0D"
  shows "\<exists>B. serialEvents (key @ CHR ''='' # v @ [t]) s =
             Some ((let r = dispatchConfig (toUpperCase (concat (map String_of_char key))) (cstr v)
                              (strtol (cstr v))
                              (s\<lparr>cmdBuffer := B, ptrBuffer := length key + 1 + length v,
                                 handlingEvent := True\<rparr>)
                    in if fst r then say [sendMessage MSG_CONFIG_CHANGE None] (snd r) else snd r)
                   \<lparr>handlingEvent := False, ptrBuffer := 0\<rparr>)"
proof -
  let ?bs = "key @ CHR ''='' # v"
  let ?n = "length key + 1 + length v"
  have n: "length ?bs = ?n" by simp
  have pre: "CHR 0x0A \<notin> set ?bs" "CHR 0x0D \<notin> set ?bs" "length ?bs \<le> 79" "length ?bs \<noteq> 1"
    using assms(2-6) by auto
  from console_line [OF pre assms(7-9)]
  obtain B where B: "length B = 80" "take (length ?bs) B = ?bs"
    "serialEvents (?bs @ [t]) s =
       Some ((handleConfigCmd (s\<lparr>cmdBuffer := B, ptrBuffer := length ?bs, handlingEvent := True\<rparr>))
              \<lparr>handlingEvent := False, ptrBuffer := 0\<rparr>)"
    by blast
  let ?S = "s\<lparr>cmdBuffer := B, ptrBuffer := ?n, handlingEvent := True\<rparr>"
  have h: "ptrBuffer ?S = ?n" "?n < length (cmdBuffer ?S)" "6 \<le> ?n"
    "take ?n (cmdBuffer ?S) = key @ CHR ''='' # v"
    using B(1,2) assms(5,6) by (simp_all only: n) simp_all
  note a = handleConfigCmd_assign [OF h assms(1,2)]
  have "(cmdBuffer ?S)[?n := CHR 0x00] = B[?n := CHR 0x00]" by simp
  then have upd: "?S\<lparr>cmdBuffer := (cmdBuffer ?S)[?n := CHR 0x00]\<rparr> =
             s\<lparr>cmdBuffer := B[?n := CHR 0x00], ptrBuffer := ?n, handlingEvent := True\<rparr>"
    by simp
  have e: "key @ CHR ''='' # v @ [t] = ?bs @ [t]" by simp
  show ?thesis
    unfolding e B(3) [unfolded n] a upd
    by (rule exI [of _ "B[?n := CHR 0x00]"]) (rule refl)
qed

declare serialEvents.simps [simp del]

text \<open>
  C6. The bytes of \<open>SSID=MyNet\<close> and a line end (line feed or carriage return), given to a
  console that waits for a new line: the console logs the command and sends the device two
  messages, \<open>MSG_COMMAND\<close> with \<open>WLSI=MyNet\<close> and then \<open>MSG_COMMAND\<close> with \<open>DOWN\<close>. Nothing
  else happens; no \<open>MSG_CONFIG_CHANGE\<close> follows.
\<close>

theorem SSID_line_sends_WLSI_then_DOWN:
  assumes "ptrBuffer s = 0" "length (cmdBuffer s) = 80" "t = CHR 0x0A \<or> t = CHR 0x0D"
  shows "map_option trace (serialEvents (''SSID=MyNet'' @ [t]) s) =
           Some (trace s @
                 [Logger_info (''Sent '' @ [CHR 0x22] @ ''%s'' @ [CHR 0x22] @
                               '' to WiReach wireless LAN device'') [''WLSI=MyNet''],
                  sendMessage MSG_COMMAND (Some ''WLSI=MyNet''),
                  sendMessage MSG_COMMAND (Some ''DOWN'')]) \<and>
         map_option (\<lambda>s'. messages (trace s')) (serialEvents (''SSID=MyNet'' @ [t]) s) =
           Some (messages (trace s) @
                 [(MSG_COMMAND, Some ''WLSI=MyNet''), (MSG_COMMAND, Some ''DOWN'')])"
proof -
  have pre: "CHR ''='' \<notin> set ''SSID''" "''MyNet'' \<noteq> []"
    "CHR 0x0A \<notin> set (''SSID'' @ ''MyNet'')" "CHR 0x0D \<notin> set (''SSID'' @ ''MyNet'')"
    "6 \<le> length ''SSID'' + 1 + length ''MyNet''" "length ''SSID'' + 1 + length ''MyNet'' \<le> 79"
    by simp_all
  have key: "toUpperCase (concat (map String_of_char ''SSID'')) = ''SSID''"
    by (simp add: toUpperCase_def toupper_def String_of_char_def cstr_def)
  have arg: "cstr ''MyNet'' = ''MyNet''" by (simp add: cstr_def)
  have e: "''SSID=MyNet'' @ [t] = ''SSID'' @ CHR ''='' # ''MyNet'' @ [t]" by simp
  from assignment_line [OF pre assms]
  obtain B where R: "serialEvents (''SSID=MyNet'' @ [t]) s =
      Some ((let r = dispatchConfig ''SSID'' ''MyNet'' (strtol ''MyNet'')
                       (s\<lparr>cmdBuffer := B, ptrBuffer := length ''SSID'' + 1 + length ''MyNet'',
                          handlingEvent := True\<rparr>)
             in if fst r then say [sendMessage MSG_CONFIG_CHANGE None] (snd r) else snd r)
            \<lparr>handlingEvent := False, ptrBuffer := 0\<rparr>)"
    unfolding key arg e by blast
  show ?thesis
    unfolding R by (simp add: dispatchConfig_def wifi_param_def say_frame Let_def messages_append)
qed

theorem SSID_line_sends_WLSI_then_DOWN_witness:
  "ptrBuffer console_start = 0 \<and> length (cmdBuffer console_start) = 80 \<and>
   map_option (\<lambda>s'. messages (trace s')) (serialEvents (''SSID=MyNet'' @ [CHR 0x0D]) console_start) =
     Some [(MSG_COMMAND, Some ''WLSI=MyNet''), (MSG_COMMAND, Some ''DOWN'')]"
proof -
  have h: "ptrBuffer console_start = 0" "length (cmdBuffer console_start) = 80"
    "CHR 0x0D = CHR 0x0A \<or> CHR 0x0D = CHR 0x0D"
    by (simp_all add: console_start_def SerialConsole_init_def)
  have t: "trace console_start = []"
    by (simp add: console_start_def SerialConsole_init_def)
  note w = SSID_line_sends_WLSI_then_DOWN [OF h, THEN conjunct2, unfolded t]
  show ?thesis using h(1,2) w by simp
qed

text \<open>
  C7, as the code has it. A line of at most 79 bytes and not of one byte is given to a
  console that waits for a new line. If the line has fewer than 6 bytes, nothing at all is
  printed or done. If it has at least 6 bytes and no \<open>=\<close> before its last byte (no \<open>=\<close> at
  all, or nothing after it), the console prints the hint \<open>Command needs a value..ie TORQ=3000\<close>
  and an empty line and does nothing else. In both cases no message is sent, nothing is
  written to the preferences or the memory cache, and no output changes.
\<close>

theorem malformed_line_no_state_change:
  assumes "CHR 0x0A \<notin> set bs" "CHR 0x0D \<notin> set bs" "length bs \<le> 79" "length bs \<noteq> 1"
    "ptrBuffer s = 0" "length (cmdBuffer s) = 80" "t = CHR 0x0A \<or> t = CHR 0x0D"
  shows "(length bs < 6 \<longrightarrow>
            map_option trace (serialEvents (bs @ [t]) s) = Some (trace s)) \<and>
         (6 \<le> length bs \<and> CHR ''='' \<notin> set (butlast bs) \<longrightarrow>
            map_option trace (serialEvents (bs @ [t]) s) =
              Some (trace s @ [Logger_console ''Command needs a value..ie TORQ=3000'' [],
                               Logger_console [] []])) \<and>
         (length bs < 6 \<or> CHR ''='' \<notin> set (butlast bs) \<longrightarrow>
            map_option douts (serialEvents (bs @ [t]) s) = Some (douts s) \<and>
            map_option memCache (serialEvents (bs @ [t]) s) = Some (memCache s))"
proof -
  from console_line [OF assms]
  obtain B where B: "length B = 80" "take (length bs) B = bs"
    and R: "serialEvents (bs @ [t]) s =
       Some ((handleConfigCmd (s\<lparr>cmdBuffer := B, ptrBuffer := length bs, handlingEvent := True\<rparr>))
              \<lparr>handlingEvent := False, ptrBuffer := 0\<rparr>)"
    by blast
  let ?S = "s\<lparr>cmdBuffer := B, ptrBuffer := length bs, handlingEvent := True\<rparr>"
  have short: "handleConfigCmd ?S = ?S" if "length bs < 6"
    using that by (simp add: handleConfigCmd_short)
  have nov: "handleConfigCmd ?S =
       say [Logger_console ''Command needs a value..ie TORQ=3000'' [], Logger_console [] []]
         (?S\<lparr>cmdBuffer := (cmdBuffer ?S)[length bs := CHR 0x00]\<rparr>)"
    if "6 \<le> length bs" "CHR ''='' \<notin> set (butlast bs)"
    using that B assms(3) by (intro handleConfigCmd_no_value) simp_all
  show ?thesis
  proof (intro conjI impI)
    assume "length bs < 6"
    then show "map_option trace (serialEvents (bs @ [t]) s) = Some (trace s)"
      unfolding R by (simp add: short)
  next
    assume "6 \<le> length bs \<and> CHR ''='' \<notin> set (butlast bs)"
    then show "map_option trace (serialEvents (bs @ [t]) s) =
              Some (trace s @ [Logger_console ''Command needs a value..ie TORQ=3000'' [],
                               Logger_console [] []])"
      unfolding R by (simp add: nov say_frame)
  next
    assume a: "length bs < 6 \<or> CHR ''='' \<notin> set (butlast bs)"
    show "map_option douts (serialEvents (bs @ [t]) s) = Some (douts s)"
      unfolding R using a short nov by (cases "length bs < 6") (simp_all add: say_frame)
  next
    assume a: "length bs < 6 \<or> CHR ''='' \<notin> set (butlast bs)"
    show "map_option memCache (serialEvents (bs @ [t]) s) = Some (memCache s)"
      unfolding R using a short nov by (cases "length bs < 6") (simp_all add: say_frame)
  qed
qed

theorem malformed_line_no_state_change_witness:
  "CHR 0x0A \<notin> set ''AB=1'' \<and> CHR 0x0D \<notin> set ''AB=1'' \<and> length ''AB=1'' \<le> 79 \<and>
   length ''AB=1'' \<noteq> 1 \<and> length ''AB=1'' < 6 \<and>
   CHR 0x0A \<notin> set ''SSIDXX='' \<and> CHR 0x0D \<notin> set ''SSIDXX='' \<and> length ''SSIDXX='' \<le> 79 \<and>
   length ''SSIDXX='' \<noteq> 1 \<and> 6 \<le> length ''SSIDXX='' \<and> CHR ''='' \<notin> set (butlast ''SSIDXX='') \<and>
   ptrBuffer console_start = 0 \<and> length (cmdBuffer console_start) = 80 \<and>
   map_option trace (serialEvents (''AB=1'' @ [CHR 0x0D]) console_start) = Some [] \<and>
   map_option trace (serialEvents (''SSIDXX='' @ [CHR 0x0D]) console_start) =
     Some [Logger_console ''Command needs a value..ie TORQ=3000'' [], Logger_console [] []]"
proof -
  have h: "ptrBuffer console_start = 0" "length (cmdBuffer console_start) = 80"
    "CHR 0x0D = CHR 0x0A \<or> CHR 0x0D = CHR 0x0D"
    by (simp_all add: console_start_def SerialConsole_init_def)
  have t: "trace console_start = []"
    by (simp add: console_start_def SerialConsole_init_def)
  have a: "CHR 0x0A \<notin> set ''AB=1''" "CHR 0x0D \<notin> set ''AB=1''" "length ''AB=1'' \<le> 79"
    "length ''AB=1'' \<noteq> 1"
    by simp_all
  have a6: "length ''AB=1'' < 6" by simp
  have b: "CHR 0x0A \<notin> set ''SSIDXX=''" "CHR 0x0D \<notin> set ''SSIDXX=''" "length ''SSIDXX='' \<le> 79"
    "length ''SSIDXX='' \<noteq> 1"
    by simp_all
  have b6: "6 \<le> length ''SSIDXX='' \<and> CHR ''='' \<notin> set (butlast ''SSIDXX='')" by simp
  have w1: "map_option trace (serialEvents (''AB=1'' @ [CHR 0x0D]) console_start) = Some []"
    using malformed_line_no_state_change [OF a h, THEN conjunct1] a6
    unfolding t by blast
  have w2: "map_option trace (serialEvents (''SSIDXX='' @ [CHR 0x0D]) console_start) =
     Some ([] @ [Logger_console ''Command needs a value..ie TORQ=3000'' [], Logger_console [] []])"
    using malformed_line_no_state_change [OF b h, THEN conjunct2, THEN conjunct1] b6
    unfolding t by blast
  show ?thesis
    using a a6 b b6 h(1,2) w1 w2 by simp
qed

text \<open>
  C7 as written fails for the line \<open>AB=1\<close>, which has four bytes: the console prints
  nothing, so no usage hint either.
\<close>

theorem short_line_prints_no_hint:
  "map_option trace (serialEvents (''AB=1'' @ [CHR 0x0D]) console_start) = Some []"
  by code_simp

lemma last_slot:
  assumes "length xs = 80" "length ys = 80" "take 79 xs = take 79 ys"
  shows "xs[79 := c] = ys[79 := c]"
proof -
  have "xs[79 := c] = take 79 xs @ [c]" "ys[79 := c] = take 79 ys @ [c]"
    using assms(1,2) by (simp_all add: upd_conv_take_nth_drop)
  then show ?thesis using assms(3) by simp
qed

text \<open>
  C8. Bytes that are neither line feed nor carriage return are given one by one to a console
  that waits for a new line. After every one of them the write offset is at most 79. After
  all of them the offset is the number of bytes, capped at 79, the line in the buffer (the
  bytes below the offset) is the first 79 bytes of the input, and nothing has been printed or
  done. A line end then gives the same result as it gives after the first 79 bytes alone.
\<close>

theorem line_buffer_capped_at_79:
  assumes "CHR 0x0A \<notin> set bs" "CHR 0x0D \<notin> set bs"
    "ptrBuffer s = 0" "length (cmdBuffer s) = 80" "t = CHR 0x0A \<or> t = CHR 0x0D"
  shows "(\<forall>n. case serialEvents (take n bs) s of None \<Rightarrow> False | Some s' \<Rightarrow> ptrBuffer s' \<le> 79) \<and>
         map_option ptrBuffer (serialEvents bs s) = Some (min (length bs) 79) \<and>
         map_option (\<lambda>s'. take (ptrBuffer s') (cmdBuffer s')) (serialEvents bs s) = Some (take 79 bs) \<and>
         map_option trace (serialEvents bs s) = Some (trace s) \<and>
         serialEvents (bs @ [t]) s = serialEvents (take 79 bs @ [t]) s"
proof -
  have p: "ptrBuffer s \<le> 79" using assms(3) by simp
  have bytes: "\<exists>B. serialEvents xs s = Some (s\<lparr>cmdBuffer := B, ptrBuffer := min (length xs) 79\<rparr>) \<and>
                length B = 80 \<and> take (min (length xs) 79) B = take 79 xs"
    if "set xs \<subseteq> set bs" for xs
  proof -
    have "CHR 0x0A \<notin> set xs" "CHR 0x0D \<notin> set xs" using that assms(1,2) by auto
    from serialEvents_bytes [OF this p assms(4), unfolded assms(3)]
    obtain B where b: "serialEvents xs s = Some (s\<lparr>cmdBuffer := B, ptrBuffer := min (0 + length xs) 79\<rparr>)"
      "length B = 80" "take 79 (take (min (0 + length xs) 79) B) = take 79 (take 0 (cmdBuffer s) @ xs)"
      by blast
    have e: "min (0 + length xs) 79 = min (length xs) 79" by simp
    have "take 79 (take (min (length xs) 79) B) = take (min (length xs) 79) B"
      by (simp add: min_def)
    then have "take (min (length xs) 79) B = take 79 xs"
      using b(3) [unfolded e] by simp
    then show ?thesis using b(1) [unfolded e] b(2) by blast
  qed
  have prefixes: "\<forall>n. case serialEvents (take n bs) s of None \<Rightarrow> False | Some s' \<Rightarrow> ptrBuffer s' \<le> 79"
  proof
    fix n
    have "set (take n bs) \<subseteq> set bs" by (rule set_take_subset)
    from bytes [OF this] show "case serialEvents (take n bs) s of None \<Rightarrow> False | Some s' \<Rightarrow> ptrBuffer s' \<le> 79"
      by auto
  qed
  obtain B where B: "serialEvents bs s = Some (s\<lparr>cmdBuffer := B, ptrBuffer := min (length bs) 79\<rparr>)"
    "length B = 80" "take (min (length bs) 79) B = take 79 bs"
    using bytes [of bs] by auto
  have trunc: "serialEvents (bs @ [t]) s = serialEvents (take 79 bs @ [t]) s"
  proof (cases "length bs \<le> 79")
    case True
    then show ?thesis by simp
  next
    case False
    have "set (take 79 bs) \<subseteq> set bs" by (rule set_take_subset)
    from bytes [OF this] False
    obtain B' where B': "serialEvents (take 79 bs) s = Some (s\<lparr>cmdBuffer := B', ptrBuffer := 79\<rparr>)"
      "length B' = 80" "take 79 B' = take 79 bs"
      by (auto simp: min_def)
    have B79: "serialEvents bs s = Some (s\<lparr>cmdBuffer := B, ptrBuffer := 79\<rparr>)" "take 79 B = take 79 bs"
      using B(1,3) False by (simp_all add: min_def)
    have same: "B[79 := CHR 0x00] = B'[79 := CHR 0x00]"
      using last_slot [OF B(2) B'(2)] B79(2) B'(3) by simp
    have "handleConfigCmd (s\<lparr>cmdBuffer := B, ptrBuffer := 79, handlingEvent := True\<rparr>) =
          handleConfigCmd (s\<lparr>cmdBuffer := B', ptrBuffer := 79, handlingEvent := True\<rparr>)"
      using handleConfigCmd_terminates_line [of "s\<lparr>cmdBuffer := B, ptrBuffer := 79, handlingEvent := True\<rparr>" 79]
        handleConfigCmd_terminates_line [of "s\<lparr>cmdBuffer := B', ptrBuffer := 79, handlingEvent := True\<rparr>" 79]
      by (simp add: same)
    then show ?thesis
      using assms(5)
      by (simp add: serialEvents_append B79(1) B'(1) serialEvents.simps serialEvent_terminator)
  qed
  show ?thesis
    using prefixes trunc by (simp add: B)
qed

theorem line_buffer_capped_at_79_witness:
  "CHR 0x0A \<notin> set (replicate 100 (CHR ''A'')) \<and> CHR 0x0D \<notin> set (replicate 100 (CHR ''A'')) \<and>
   ptrBuffer console_start = 0 \<and> length (cmdBuffer console_start) = 80 \<and>
   map_option ptrBuffer (serialEvents (replicate 100 (CHR ''A'')) console_start) = Some 79 \<and>
   map_option (\<lambda>s'. take (ptrBuffer s') (cmdBuffer s'))
     (serialEvents (replicate 100 (CHR ''A'')) console_start) = Some (replicate 79 (CHR ''A''))"
proof -
  have h: "CHR 0x0A \<notin> set (replicate 100 (CHR ''A''))" "CHR 0x0D \<notin> set (replicate 100 (CHR ''A''))"
    "ptrBuffer console_start = 0" "length (cmdBuffer console_start) = 80"
    "CHR 0x0D = CHR 0x0A \<or> CHR 0x0D = CHR 0x0D"
    by (simp_all add: console_start_def SerialConsole_init_def)
  note w = line_buffer_capped_at_79 [OF h]
  have w2: "map_option ptrBuffer (serialEvents (replicate 100 (CHR ''A'')) console_start) =
            Some (min (length (replicate 100 (CHR ''A''))) 79)"
    using w by blast
  have w3: "map_option (\<lambda>s'. take (ptrBuffer s') (cmdBuffer s'))
     (serialEvents (replicate 100 (CHR ''A'')) console_start) = Some (take 79 (replicate 100 (CHR ''A'')))"
    using w by blast
  have "min (length (replicate 100 (CHR ''A''))) 79 = 79"
    "take 79 (replicate 100 (CHR ''A'')) = replicate 79 (CHR ''A'')"
    by simp_all
  then show ?thesis using h(1-4) w2 w3 by simp
qed

lemma wifi_line:
  assumes "CHR ''='' \<notin> set K" "CHR 0x0A \<notin> set K" "CHR 0x0D \<notin> set K"
    "toUpperCase (concat (map String_of_char K)) = K"
    "\<And>S. \<not> fst (dispatchConfig K (cstr v) (strtol (cstr v)) S) \<and>
          trace (snd (dispatchConfig K (cstr v) (strtol (cstr v)) S)) = trace S @ es"
    "v \<noteq> []" "CHR 0x0A \<notin> set v" "CHR 0x0D \<notin> set v"
    "6 \<le> length K + 1 + length v" "length K + 1 + length v \<le> 79"
    "ptrBuffer s = 0" "length (cmdBuffer s) = 80" "t = CHR 0x0A \<or> t = CHR 0x0D"
  shows "map_option trace (serialEvents (K @ ''='' @ v @ [t]) s) = Some (trace s @ es)"
proof -
  have pre: "CHR 0x0A \<notin> set (K @ v)" "CHR 0x0D \<notin> set (K @ v)"
    using assms(2,3,7,8) by simp_all
  have e: "K @ ''='' @ v @ [t] = K @ CHR ''='' # v @ [t]" by simp
  from assignment_line [OF assms(1) assms(6) pre assms(9-13)]
  obtain B where R: "serialEvents (K @ ''='' @ v @ [t]) s =
      Some ((let r = dispatchConfig K (cstr v) (strtol (cstr v))
                       (s\<lparr>cmdBuffer := B, ptrBuffer := length K + 1 + length v,
                          handlingEvent := True\<rparr>)
             in if fst r then say [sendMessage MSG_CONFIG_CHANGE None] (snd r) else snd r)
            \<lparr>handlingEvent := False, ptrBuffer := 0\<rparr>)"
    unfolding assms(4) e by blast
  show ?thesis
    unfolding R by (simp add: Let_def assms(5))
qed


lemma wifi_param_trace: "trace (wifi_param name arg s) = trace s @ wifi_param_effects name arg"
  by (simp add: wifi_param_def wifi_param_effects_def Let_def say_frame)

text \<open>
  C9, as the code has it. For each of the keys \<open>WIREACH\<close>, \<open>SSID\<close>, \<open>IP\<close>, \<open>CHANNEL\<close>,
  \<open>SECURITY\<close> and \<open>PWD\<close>, a line \<open>KEY=VALUE\<close> of at least 6 and at most 79 bytes with a
  non-empty value, followed by a line end, makes the console send exactly two messages:
  \<open>MSG_COMMAND\<close> with the translated command (the value itself for \<open>WIREACH\<close>, and \<open>WLSI=\<close>,
  \<open>DIP=\<close>, \<open>WLCH=\<close>, \<open>WLPP=\<close>, \<open>WPWD=\<close> before the value for the others), then
  \<open>MSG_COMMAND\<close> with \<open>DOWN\<close>. No \<open>MSG_CONFIG_CHANGE\<close> follows.
\<close>

theorem wifi_key_sends_command_then_DOWN:
  assumes "(K, c) \<in> set [(''WIREACH'', cstr v), (''SSID'', ''WLSI='' @ cstr v),
                          (''IP'', ''DIP='' @ cstr v), (''CHANNEL'', ''WLCH='' @ cstr v),
                          (''SECURITY'', ''WLPP='' @ cstr v), (''PWD'', ''WPWD='' @ cstr v)]"
    "v \<noteq> []" "CHR 0x0A \<notin> set v" "CHR 0x0D \<notin> set v"
    "6 \<le> length K + 1 + length v" "length K + 1 + length v \<le> 79"
    "ptrBuffer s = 0" "length (cmdBuffer s) = 80" "t = CHR 0x0A \<or> t = CHR 0x0D"
  shows "map_option (\<lambda>s'. messages (trace s')) (serialEvents (K @ ''='' @ v @ [t]) s) =
           Some (messages (trace s) @ [(MSG_COMMAND, Some c), (MSG_COMMAND, Some ''DOWN'')])"
proof -
  have "\<exists>es. map_option trace (serialEvents (K @ ''='' @ v @ [t]) s) = Some (trace s @ es) \<and>
             messages es = [(MSG_COMMAND, Some c), (MSG_COMMAND, Some ''DOWN'')]"
  proof -
    have "(K = ''WIREACH'' \<and> c = cstr v) \<or> (K = ''SSID'' \<and> c = ''WLSI='' @ cstr v)
      \<or> (K = ''IP'' \<and> c = ''DIP='' @ cstr v) \<or> (K = ''CHANNEL'' \<and> c = ''WLCH='' @ cstr v)
      \<or> (K = ''SECURITY'' \<and> c = ''WLPP='' @ cstr v) \<or> (K = ''PWD'' \<and> c = ''WPWD='' @ cstr v)"
      using assms(1) by simp
    then show ?thesis
    proof (elim disjE conjE)
      assume 1: "K = ''WIREACH''" "c = cstr v"
      let ?es = "[sendMessage MSG_COMMAND (Some (cstr v)),
                  Logger_info (''sent '' @ [CHR 0x22] @ ''AT+i%s'' @ [CHR 0x22] @
                               '' to WiReach wireless LAN device'') [cstr v],
                  sendMessage MSG_COMMAND (Some ''DOWN'')]"
      have "map_option trace (serialEvents (''WIREACH'' @ ''='' @ v @ [t]) s) = Some (trace s @ ?es)"
      proof (rule wifi_line)
        show "toUpperCase (concat (map String_of_char ''WIREACH'')) = ''WIREACH''"
          by (simp add: toUpperCase_def toupper_def String_of_char_def cstr_def)
        show "\<not> fst (dispatchConfig ''WIREACH'' (cstr v) (strtol (cstr v)) S) \<and>
              trace (snd (dispatchConfig ''WIREACH'' (cstr v) (strtol (cstr v)) S)) = trace S @ ?es" for S
          by (simp add: dispatchConfig_def say_frame)
      qed (use assms(2-9) [unfolded 1] in simp_all)
      then show ?thesis unfolding 1 by (intro exI [of _ ?es]) simp
    next
      assume 2: "K = ''SSID''" "c = ''WLSI='' @ cstr v"
      have "map_option trace (serialEvents (''SSID'' @ ''='' @ v @ [t]) s) =
              Some (trace s @ wifi_param_effects ''WLSI'' (cstr v))"
      proof (rule wifi_line)
        show "toUpperCase (concat (map String_of_char ''SSID'')) = ''SSID''"
          by (simp add: toUpperCase_def toupper_def String_of_char_def cstr_def)
        show "\<not> fst (dispatchConfig ''SSID'' (cstr v) (strtol (cstr v)) S) \<and>
              trace (snd (dispatchConfig ''SSID'' (cstr v) (strtol (cstr v)) S)) =
                trace S @ wifi_param_effects ''WLSI'' (cstr v)" for S
          by (simp add: dispatchConfig_def wifi_param_trace)
      qed (use assms(2-9) [unfolded 2] in simp_all)
      then show ?thesis
        unfolding 2 by (intro exI [of _ "wifi_param_effects ''WLSI'' (cstr v)"]) (simp add: wifi_param_effects_def)
    next
      assume 3: "K = ''IP''" "c = ''DIP='' @ cstr v"
      have "map_option trace (serialEvents (''IP'' @ ''='' @ v @ [t]) s) =
              Some (trace s @ wifi_param_effects ''DIP'' (cstr v))"
      proof (rule wifi_line)
        show "toUpperCase (concat (map String_of_char ''IP'')) = ''IP''"
          by (simp add: toUpperCase_def toupper_def String_of_char_def cstr_def)
        show "\<not> fst (dispatchConfig ''IP'' (cstr v) (strtol (cstr v)) S) \<and>
              trace (snd (dispatchConfig ''IP'' (cstr v) (strtol (cstr v)) S)) =
                trace S @ wifi_param_effects ''DIP'' (cstr v)" for S
          by (simp add: dispatchConfig_def wifi_param_trace)
      qed (use assms(2-9) [unfolded 3] in simp_all)
      then show ?thesis
        unfolding 3 by (intro exI [of _ "wifi_param_effects ''DIP'' (cstr v)"]) (simp add: wifi_param_effects_def)
    next
      assume 4: "K = ''CHANNEL''" "c = ''WLCH='' @ cstr v"
      have "map_option trace (serialEvents (''CHANNEL'' @ ''='' @ v @ [t]) s) =
              Some (trace s @ wifi_param_effects ''WLCH'' (cstr v))"
      proof (rule wifi_line)
        show "toUpperCase (concat (map String_of_char ''CHANNEL'')) = ''CHANNEL''"
          by (simp add: toUpperCase_def toupper_def String_of_char_def cstr_def)
        show "\<not> fst (dispatchConfig ''CHANNEL'' (cstr v) (strtol (cstr v)) S) \<and>
              trace (snd (dispatchConfig ''CHANNEL'' (cstr v) (strtol (cstr v)) S)) =
                trace S @ wifi_param_effects ''WLCH'' (cstr v)" for S
          by (simp add: dispatchConfig_def wifi_param_trace)
      qed (use assms(2-9) [unfolded 4] in simp_all)
      then show ?thesis
        unfolding 4 by (intro exI [of _ "wifi_param_effects ''WLCH'' (cstr v)"]) (simp add: wifi_param_effects_def)
    next
      assume 5: "K = ''SECURITY''" "c = ''WLPP='' @ cstr v"
      have "map_option trace (serialEvents (''SECURITY'' @ ''='' @ v @ [t]) s) =
              Some (trace s @ wifi_param_effects ''WLPP'' (cstr v))"
      proof (rule wifi_line)
        show "toUpperCase (concat (map String_of_char ''SECURITY'')) = ''SECURITY''"
          by (simp add: toUpperCase_def toupper_def String_of_char_def cstr_def)
        show "\<not> fst (dispatchConfig ''SECURITY'' (cstr v) (strtol (cstr v)) S) \<and>
              trace (snd (dispatchConfig ''SECURITY'' (cstr v) (strtol (cstr v)) S)) =
                trace S @ wifi_param_effects ''WLPP'' (cstr v)" for S
          by (simp add: dispatchConfig_def wifi_param_trace)
      qed (use assms(2-9) [unfolded 5] in simp_all)
      then show ?thesis
        unfolding 5 by (intro exI [of _ "wifi_param_effects ''WLPP'' (cstr v)"]) (simp add: wifi_param_effects_def)
    next
      assume 6: "K = ''PWD''" "c = ''WPWD='' @ cstr v"
      have "map_option trace (serialEvents (''PWD'' @ ''='' @ v @ [t]) s) =
              Some (trace s @ wifi_param_effects ''WPWD'' (cstr v))"
      proof (rule wifi_line)
        show "toUpperCase (concat (map String_of_char ''PWD'')) = ''PWD''"
          by (simp add: toUpperCase_def toupper_def String_of_char_def cstr_def)
        show "\<not> fst (dispatchConfig ''PWD'' (cstr v) (strtol (cstr v)) S) \<and>
              trace (snd (dispatchConfig ''PWD'' (cstr v) (strtol (cstr v)) S)) =
                trace S @ wifi_param_effects ''WPWD'' (cstr v)" for S
          by (simp add: dispatchConfig_def wifi_param_trace)
      qed (use assms(2-9) [unfolded 6] in simp_all)
      then show ?thesis
        unfolding 6 by (intro exI [of _ "wifi_param_effects ''WPWD'' (cstr v)"]) (simp add: wifi_param_effects_def)
    qed
  qed
  then obtain es where es: "map_option trace (serialEvents (K @ ''='' @ v @ [t]) s) = Some (trace s @ es)"
    "messages es = [(MSG_COMMAND, Some c), (MSG_COMMAND, Some ''DOWN'')]"
    by blast
  from es(1) obtain s' where s': "serialEvents (K @ ''='' @ v @ [t]) s = Some s'" "trace s' = trace s @ es"
    by auto
  show ?thesis unfolding s'(1) by (simp add: s'(2) messages_append es(2))
qed

theorem wifi_key_sends_command_then_DOWN_witness:
  "(''PWD'', ''WPWD=secret'') \<in> set [(''WIREACH'', cstr ''secret''), (''SSID'', ''WLSI='' @ cstr ''secret''),
                          (''IP'', ''DIP='' @ cstr ''secret''), (''CHANNEL'', ''WLCH='' @ cstr ''secret''),
                          (''SECURITY'', ''WLPP='' @ cstr ''secret''), (''PWD'', ''WPWD='' @ cstr ''secret'')] \<and>
   ''secret'' \<noteq> [] \<and> CHR 0x0A \<notin> set ''secret'' \<and> CHR 0x0D \<notin> set ''secret'' \<and>
   6 \<le> length ''PWD'' + 1 + length ''secret'' \<and> length ''PWD'' + 1 + length ''secret'' \<le> 79 \<and>
   ptrBuffer console_start = 0 \<and> length (cmdBuffer console_start) = 80 \<and>
   map_option (\<lambda>s'. messages (trace s')) (serialEvents (''PWD'' @ ''='' @ ''secret'' @ [CHR 0x0D]) console_start) =
     Some [(MSG_COMMAND, Some ''WPWD=secret''), (MSG_COMMAND, Some ''DOWN'')]"
proof -
  have h: "(''PWD'', ''WPWD=secret'') \<in> set [(''WIREACH'', cstr ''secret''), (''SSID'', ''WLSI='' @ cstr ''secret''),
                          (''IP'', ''DIP='' @ cstr ''secret''), (''CHANNEL'', ''WLCH='' @ cstr ''secret''),
                          (''SECURITY'', ''WLPP='' @ cstr ''secret''), (''PWD'', ''WPWD='' @ cstr ''secret'')]"
    "''secret'' \<noteq> []" "CHR 0x0A \<notin> set ''secret''" "CHR 0x0D \<notin> set ''secret''"
    "6 \<le> length ''PWD'' + 1 + length ''secret''" "length ''PWD'' + 1 + length ''secret'' \<le> 79"
    "ptrBuffer console_start = 0" "length (cmdBuffer console_start) = 80"
    "CHR 0x0D = CHR 0x0A \<or> CHR 0x0D = CHR 0x0D"
    by (simp_all add: console_start_def SerialConsole_init_def cstr_def)
  have t: "messages (trace console_start) = []"
    by (simp add: console_start_def SerialConsole_init_def)
  note w = wifi_key_sends_command_then_DOWN [OF h, unfolded t append_Nil]
  show ?thesis using h(1-8) w by blast
qed

text \<open>
  C9 as written fails for the line \<open>PWD=x\<close>, which has five bytes: the console sends no
  message at all.
\<close>

theorem short_wifi_line_sends_nothing:
  "map_option (\<lambda>s'. messages (trace s')) (serialEvents (''PWD=x'' @ [CHR 0x0D]) console_start) =
     Some []"
  by code_simp

text \<open>
  C10, as the code has it. A line \<open>OUTPUT=v\<close> of at most 79 bytes (so \<open>v\<close> has at most 72)
  whose value parses (by \<open>strtol\<close> with base 0) to an integer of at least 8, followed by a
  line end: the console prints \<open>Unknown command\<close> and does nothing else. No output changes
  and no \<open>MSG_CONFIG_CHANGE\<close> is sent.
\<close>

theorem OUTPUT_from_8_is_unknown_command:
  assumes "8 \<le> strtol (cstr v)" "CHR 0x0A \<notin> set v" "CHR 0x0D \<notin> set v" "length v \<le> 72"
    "ptrBuffer s = 0" "length (cmdBuffer s) = 80" "t = CHR 0x0A \<or> t = CHR 0x0D"
  shows "map_option trace (serialEvents (''OUTPUT='' @ v @ [t]) s) =
           Some (trace s @ [Logger_console ''Unknown command'' []]) \<and>
         map_option douts (serialEvents (''OUTPUT='' @ v @ [t]) s) = Some (douts s)"
proof -
  have v: "v \<noteq> []" using assms(1) by (auto simp: strtol_empty cstr_def)
  have pre: "CHR ''='' \<notin> set ''OUTPUT''" 
    "CHR 0x0A \<notin> set (''OUTPUT'' @ v)" "CHR 0x0D \<notin> set (''OUTPUT'' @ v)"
    "6 \<le> length ''OUTPUT'' + 1 + length v" "length ''OUTPUT'' + 1 + length v \<le> 79"
    using assms(2-4) by simp_all
  have key: "toUpperCase (concat (map String_of_char ''OUTPUT'')) = ''OUTPUT''"
    by (simp add: toUpperCase_def toupper_def String_of_char_def cstr_def)
  have e: "''OUTPUT='' @ v @ [t] = ''OUTPUT'' @ CHR ''='' # v @ [t]" by simp
  from assignment_line [OF pre(1) v pre(2-5) assms(5-7)]
  obtain B where R: "serialEvents (''OUTPUT='' @ v @ [t]) s =
      Some ((let r = dispatchConfig ''OUTPUT'' (cstr v) (strtol (cstr v))
                       (s\<lparr>cmdBuffer := B, ptrBuffer := length ''OUTPUT'' + 1 + length v,
                          handlingEvent := True\<rparr>)
             in if fst r then say [sendMessage MSG_CONFIG_CHANGE None] (snd r) else snd r)
            \<lparr>handlingEvent := False, ptrBuffer := 0\<rparr>)"
    unfolding key e by blast
  have n: "\<not> strtol (cstr v) < 8" using assms(1) by simp
  show ?thesis
    unfolding R using n by (simp add: dispatchConfig_def say_frame Let_def)
qed

theorem OUTPUT_from_8_is_unknown_command_witness:
  "8 \<le> strtol (cstr ''9'') \<and> CHR 0x0A \<notin> set ''9'' \<and> CHR 0x0D \<notin> set ''9'' \<and> length ''9'' \<le> 72 \<and>
   ptrBuffer console_start = 0 \<and> length (cmdBuffer console_start) = 80 \<and>
   map_option trace (serialEvents (''OUTPUT='' @ ''9'' @ [CHR 0x0D]) console_start) =
     Some [Logger_console ''Unknown command'' []]"
proof -
  have v: "8 \<le> strtol (cstr ''9'')" by code_simp
  have h: "CHR 0x0A \<notin> set ''9''" "CHR 0x0D \<notin> set ''9''" "length ''9'' \<le> 72"
    "ptrBuffer console_start = 0" "length (cmdBuffer console_start) = 80"
    "CHR 0x0D = CHR 0x0A \<or> CHR 0x0D = CHR 0x0D"
    by (simp_all add: console_start_def SerialConsole_init_def)
  have t: "trace console_start = []"
    by (simp add: console_start_def SerialConsole_init_def)
  note w = OUTPUT_from_8_is_unknown_command [OF v h, THEN conjunct1, unfolded t append_Nil]
  show ?thesis using v h(1-5) w by blast
qed

text \<open>
  C10 as written fails for the line of 80 bytes made of \<open>OUTPUT=\<close>, 72 blanks and \<open>9\<close>. Its
  value parses to 9, but the \<open>9\<close> is the 80th byte: \<open>serialEvent\<close> stores it in slot 79 and
  clamps the offset to 79, and \<open>handleConfigCmd\<close> writes the terminating zero over it. The
  value left in the buffer is blanks only, \<open>strtol\<close> returns 0, and the \<open>OUTPUT\<close> branch runs:
  output 0 is switched on and \<open>MSG_CONFIG_CHANGE\<close> is sent.
\<close>

theorem long_OUTPUT_line_toggles_output_0:
  "8 \<le> strtol (cstr (replicate 72 (CHR '' '') @ ''9'')) \<and>
   map_option trace
     (serialEvents (''OUTPUT='' @ replicate 72 (CHR '' '') @ ''9'' @ [CHR 0x0D]) console_start) =
     Some [Logger_console ''DOUT%d,  STATE: %d'' [0, 0],
           setOutput 0 1,
           Logger_console
             ''DOUT0:%d, DOUT1:%d, DOUT2:%d, DOUT3:%d, DOUT4:%d, DOUT5:%d, DOUT6:%d, DOUT7:%d''
             [1, 0, 0, 0, 0, 0, 0, 0],
           sendMessage MSG_CONFIG_CHANGE None]"
  by code_simp

end
